theory Spec2Isabelle
  imports Complex_Main "HOL-Library.AList"
begin

section \<open>Values\<close>

text \<open>
  The engine of \<^verbatim>\<open>src/app.py\<close> (\<^verbatim>\<open>run_logic\<close>) works on pandas data frames.
  A cell of a frame is a number, a text or the missing value (pandas' NaN / None).
  Numbers are exact rationals here: the rounding of IEEE doubles and the infinities are
  not modelled, so \<^verbatim>\<open>0.05\<close>, \<^verbatim>\<open>0.15\<close> and \<^verbatim>\<open>0.12\<close> are the fractions they denote.
\<close>

datatype cell = Num rat | Str string | NaN

text \<open>A float that may be NaN: the value a numeric column holds in one row.\<close>

type_synonym float64 = "rat option"

text \<open>
  Python's comparisons of a float with a literal: every comparison with NaN is false.
\<close>

definition gt :: "float64 \<Rightarrow> rat \<Rightarrow> bool" where
  "gt x c = (case x of Some a \<Rightarrow> c < a | None \<Rightarrow> False)"

definition lt :: "float64 \<Rightarrow> rat \<Rightarrow> bool" where
  "lt x c = (case x of Some a \<Rightarrow> a < c | None \<Rightarrow> False)"

section \<open>The decision classifier: \<^verbatim>\<open>get_rec\<close> (lines 148--163)\<close>

text \<open>
  The fields of a row of the master table that \<^verbatim>\<open>get_rec\<close> reads.
\<close>

record row =
  odometer :: float64
  cpm :: float64
  net_equity :: float64
  recent_miles :: float64

text \<open>\<^verbatim>\<open>", ".join(reasons)\<close>\<close>

fun join :: "string \<Rightarrow> string list \<Rightarrow> string" where
  "join sep [] = []"
| "join sep [x] = x"
| "join sep (x # y # ys) = x @ sep @ join sep (y # ys)"

text \<open>
  \<^verbatim>\<open>get_rec\<close>, statement by statement. The formatting of a float with two decimals
  (\<^verbatim>\<open>f"{x:.2f}"\<close>) is Python's own and is the parameter \<open>fmt2\<close>.
  The result is the pair \<^verbatim>\<open>[rec, ", ".join(reasons)]\<close>.
\<close>

definition get_rec :: "(float64 \<Rightarrow> string) \<Rightarrow> row \<Rightarrow> string \<times> string" where
  "get_rec fmt2 r =
     (let reasons0 = [];
          rec0 = ''INSPECT'';
          reasons1 = (if gt (odometer r) 500000 then reasons0 @ [''High Miles''] else reasons0);
          reasons2 = (if gt (cpm r) (15 / 100)
                      then reasons1 @ [''High CPM ($'' @ fmt2 (cpm r) @ '')''] else reasons1);
          reasons3 = (if gt (net_equity r) 0 then reasons2 @ [''Pos Equity'']
                      else reasons2 @ [''Neg Equity'']);
          rec1 = (if (gt (odometer r) 500000 \<or> gt (cpm r) (15 / 100)) \<and> gt (net_equity r) 0
                  then ''SELL''
                  else if lt (cpm r) (12 / 100) \<and> gt (recent_miles r) 2000
                  then ''KEEP''
                  else if lt (recent_miles r) 1000 \<and> lt (net_equity r) 0
                  then ''INSPECT''
                  else rec0)
      in (rec1, join '', '' reasons3))"

subsection \<open>The rules as the specification words them\<close>

definition rule_A :: "row \<Rightarrow> bool" where
  "rule_A r = ((gt (odometer r) 500000 \<or> gt (cpm r) (15 / 100)) \<and> gt (net_equity r) 0)"

definition rule_B :: "row \<Rightarrow> bool" where
  "rule_B r = (lt (cpm r) (12 / 100) \<and> gt (recent_miles r) 2000)"

definition rule_C :: "row \<Rightarrow> bool" where
  "rule_C r = (lt (recent_miles r) 1000 \<and> lt (net_equity r) 0)"

text \<open>
  The simpler classifier: SELL if Rule A holds, else KEEP if Rule B holds, else INSPECT.
\<close>

definition simple_action :: "row \<Rightarrow> string" where
  "simple_action r = (if rule_A r then ''SELL'' else if rule_B r then ''KEEP'' else ''INSPECT'')"

text \<open>
  Concrete rows: one on which both Rule A and Rule B hold, one on which only Rule B
  holds, one on which only Rule C holds, and one on which no rule holds.
\<close>

definition row_AB :: row where
  "row_AB = \<lparr>odometer = Some 600000, cpm = Some (1 / 10), net_equity = Some 5000,
             recent_miles = Some 3000\<rparr>"

definition row_B :: row where
  "row_B = \<lparr>odometer = Some 100000, cpm = Some (2 / 100), net_equity = Some 54000,
            recent_miles = Some 5000\<rparr>"

definition row_C :: row where
  "row_C = \<lparr>odometer = Some 0, cpm = Some (13 / 100), net_equity = Some (- 1),
            recent_miles = Some 500\<rparr>"

definition row_none :: row where
  "row_none = \<lparr>odometer = Some 0, cpm = Some 0, net_equity = Some 65000,
               recent_miles = Some 0\<rparr>"

section \<open>Text\<close>

text \<open>
  Python's \<^verbatim>\<open>str.lower\<close>, \<^verbatim>\<open>sub in s\<close>, \<^verbatim>\<open>str.strip\<close> and
  \<^verbatim>\<open>str.replace(old, '')\<close>. A character is a code point below 256.
\<close>

text \<open>
  \<^verbatim>\<open>str.lower\<close> on one character: the letters A to Z by the table, the capital
  letters 192 to 214 and 216 to 222 (U+00C0 to U+00DE without the sign U+00D7) by the
  offset 32, every other character as it is.
\<close>

definition lower_char :: "char \<Rightarrow> char" where
  "lower_char c =
     (case map_of (zip ''ABCDEFGHIJKLMNOPQRSTUVWXYZ'' ''abcdefghijklmnopqrstuvwxyz'') c of
        Some d \<Rightarrow> d
      | None \<Rightarrow>
          (let n = (of_char c :: nat)
           in if (192 \<le> n \<and> n \<le> 214) \<or> (216 \<le> n \<and> n \<le> 222) then char_of (n + 32) else c))"

definition lower :: "string \<Rightarrow> string" where
  "lower s = map lower_char s"

fun str_contains :: "string \<Rightarrow> string \<Rightarrow> bool" where
  "str_contains sub [] = (sub = [])"
| "str_contains sub (c # cs) = (take (length sub) (c # cs) = sub \<or> str_contains sub cs)"

text \<open>
  The characters below 256 that \<^verbatim>\<open>str.strip()\<close> removes (those for which
  \<^verbatim>\<open>str.isspace\<close> holds): tab, line feed, vertical tab, form feed, carriage return
  (9 to 13), the four separators 28 to 31, the blank (32), next line (133, U+0085) and the
  no-break space (160, U+00A0).
\<close>

definition is_space :: "char \<Rightarrow> bool" where
  "is_space c =
     (let n = (of_char c :: nat)
      in (9 \<le> n \<and> n \<le> 13) \<or> (28 \<le> n \<and> n \<le> 32) \<or> n = 133 \<or> n = 160)"

definition strip :: "string \<Rightarrow> string" where
  "strip s = rev (dropWhile is_space (rev (dropWhile is_space s)))"

text \<open>
  \<^verbatim>\<open>s.replace(old, '')\<close>: one pass from the left, each occurrence of \<open>old\<close> is dropped
  and the scan goes on behind it.
\<close>

function remove_all :: "string \<Rightarrow> string \<Rightarrow> string" where
  "remove_all old [] = []"
| "remove_all old (c # cs) =
     (if old \<noteq> [] \<and> take (length old) (c # cs) = old
      then remove_all old (drop (length old) (c # cs))
      else c # remove_all old cs)"
  by pat_completeness auto
termination
  by (relation "measure (\<lambda>(old, s). length s)") (auto simp: neq_Nil_conv)

section \<open>The canonical key (\<^verbatim>\<open>load_initial_data\<close>, lines 71--74)\<close>

text \<open>
  \<^verbatim>\<open>df[id_col].astype(str).str.replace('SPOT-', '').str.strip()\<close>, on one value that
  is already cast to text.
\<close>

definition clean_id :: "string \<Rightarrow> string" where
  "clean_id s = strip (remove_all ''SPOT-'' s)"

text \<open>
  The key as the specification words it: the prefix token \<^verbatim>\<open>SPOT-\<close> is removed from
  the front of the value, and the rest is trimmed.
\<close>

definition drop_prefix_spot :: "string \<Rightarrow> string" where
  "drop_prefix_spot s = (if take 5 s = ''SPOT-'' then drop 5 s else s)"

definition spec_key :: "string \<Rightarrow> string" where
  "spec_key s = strip (drop_prefix_spot s)"

section \<open>Data frames\<close>

text \<open>
  A data frame is its index length and its columns in order, each a name and one cell per
  row. Column names are text (the engine calls \<^verbatim>\<open>c.lower()\<close> on them).
\<close>

type_synonym column = "cell list"

record table =
  nrows :: nat
  cols :: "(string \<times> column) list"

datatype error = KeyError string | TypeError | ZeroDivisionError

text \<open>\<^verbatim>\<open>pd.DataFrame()\<close>, \<^verbatim>\<open>df.columns\<close>, \<^verbatim>\<open>df.empty\<close>, \<^verbatim>\<open>name in df.columns\<close>.\<close>

definition empty_df :: table where
  "empty_df = \<lparr>nrows = 0, cols = []\<rparr>"

definition columns :: "table \<Rightarrow> string list" where
  "columns t = map fst (cols t)"

definition is_empty :: "table \<Rightarrow> bool" where
  "is_empty t = (nrows t = 0 \<or> cols t = [])"

definition has_col :: "string \<Rightarrow> table \<Rightarrow> bool" where
  "has_col c t = (c \<in> set (columns t))"

text \<open>\<^verbatim>\<open>df[c]\<close> raises KeyError when the frame has no column \<open>c\<close>.\<close>

definition col :: "table \<Rightarrow> string \<Rightarrow> error + column" where
  "col t c = (case map_of (cols t) c of None \<Rightarrow> Inl (KeyError c) | Some xs \<Rightarrow> Inr xs)"

text \<open>
  \<^verbatim>\<open>df[c]\<close> where the code has just found or written the column \<open>c\<close>, so that the
  KeyError cannot happen (\<open>find_col_present\<close> below).
\<close>

definition the_col :: "table \<Rightarrow> string \<Rightarrow> column" where
  "the_col t c = (case map_of (cols t) c of None \<Rightarrow> [] | Some xs \<Rightarrow> xs)"

text \<open>
  \<^verbatim>\<open>df[c] = xs\<close>: an existing column is replaced where it stands, a new one is put last.
\<close>

definition set_col :: "string \<Rightarrow> column \<Rightarrow> table \<Rightarrow> table" where
  "set_col c xs t = t\<lparr>cols := AList.update c xs (cols t)\<rparr>"

text \<open>\<^verbatim>\<open>next((c for c in df.columns if P(c)), None)\<close> and the test \<^verbatim>\<open>if c:\<close> on it.\<close>

definition find_col :: "(string \<Rightarrow> bool) \<Rightarrow> table \<Rightarrow> string option" where
  "find_col P t = List.find P (columns t)"

definition truthy :: "string option \<Rightarrow> bool" where
  "truthy c = (case c of None \<Rightarrow> False | Some n \<Rightarrow> n \<noteq> [])"

text \<open>Exceptions: the first one raised ends the computation.\<close>

definition bind :: "error + 'a \<Rightarrow> ('a \<Rightarrow> error + 'b) \<Rightarrow> error + 'b" where
  "bind x f = (case x of Inl e \<Rightarrow> Inl e | Inr v \<Rightarrow> f v)"

fun sequence :: "(error + 'a) list \<Rightarrow> error + 'a list" where
  "sequence [] = Inr []"
| "sequence (x # xs) = bind x (\<lambda>v. bind (sequence xs) (\<lambda>vs. Inr (v # vs)))"

subsection \<open>Numeric reading of cells\<close>

text \<open>
  Arithmetic on a cell: a number or NaN is read as a float, a text raises TypeError
  (pandas raises it when text meets a number in a sum, a comparison, a product or a
  quotient). What pandas does with a value column that holds only text differs between
  its operations and versions; here the first numeric use of a text raises. No property
  below rests on a run with text in a value column.
\<close>

fun to_float :: "cell \<Rightarrow> error + float64" where
  "to_float (Num q) = Inr (Some q)"
| "to_float NaN = Inr None"
| "to_float (Str s) = Inl TypeError"

fun of_float :: "float64 \<Rightarrow> cell" where
  "of_float (Some q) = Num q"
| "of_float None = NaN"

definition floats :: "column \<Rightarrow> error + float64 list" where
  "floats xs = sequence (map to_float xs)"

text \<open>Float arithmetic: NaN in, NaN out.\<close>

definition fmul :: "float64 \<Rightarrow> float64 \<Rightarrow> float64" where
  "fmul a b = (case (a, b) of (Some x, Some y) \<Rightarrow> Some (x * y) | _ \<Rightarrow> None)"

definition fsub :: "float64 \<Rightarrow> float64 \<Rightarrow> float64" where
  "fsub a b = (case (a, b) of (Some x, Some y) \<Rightarrow> Some (x - y) | _ \<Rightarrow> None)"

text \<open>
  Division. pandas answers a division by zero with an infinity, which the rationals do
  not have; the case is an error of its own here, so that reaching it is visible
  (\<open>formulas\<close> never does).
\<close>

definition fdiv :: "float64 \<Rightarrow> float64 \<Rightarrow> error + float64" where
  "fdiv a b =
     (case b of
        None \<Rightarrow> Inr None
      | Some y \<Rightarrow> if y = 0 then Inl ZeroDivisionError
                  else (case a of None \<Rightarrow> Inr None | Some x \<Rightarrow> Inr (Some (x / y))))"

text \<open>\<^verbatim>\<open>Series.clip(lower=c)\<close>, \<^verbatim>\<open>Series.fillna(0)\<close>, \<^verbatim>\<open>Series.replace(0, 1)\<close> on one value.\<close>

definition clip_lower :: "rat \<Rightarrow> float64 \<Rightarrow> float64" where
  "clip_lower c x = (case x of None \<Rightarrow> None | Some q \<Rightarrow> Some (max c q))"

definition fillna_cell :: "cell \<Rightarrow> cell" where
  "fillna_cell x = (if x = NaN then Num 0 else x)"

definition replace_0_1 :: "cell \<Rightarrow> cell" where
  "replace_0_1 x = (if x = Num 0 then Num 1 else x)"

text \<open>
  What Python itself does with text and numbers: \<^verbatim>\<open>pd.to_numeric\<close> on a text (the
  number it reads, or NaN under \<^verbatim>\<open>errors='coerce'\<close>) and the format \<^verbatim>\<open>:.2f\<close>. Both are
  library behaviour and parameters of the engine.
\<close>

record pylib =
  parse_number :: "string \<Rightarrow> float64"
  fmt2f :: "float64 \<Rightarrow> string"

text \<open>\<^verbatim>\<open>pd.to_numeric(x, errors='coerce')\<close> on one cell.\<close>

fun to_numeric :: "pylib \<Rightarrow> cell \<Rightarrow> float64" where
  "to_numeric L (Num q) = Some q"
| "to_numeric L NaN = None"
| "to_numeric L (Str s) = parse_number L s"

section \<open>The engine: \<^verbatim>\<open>run_logic\<close> (lines 89--169)\<close>

subsection \<open>The finance table and the base of the master table (lines 98--111)\<close>

text \<open>
  Lines 100--104. The statement \<^verbatim>\<open>df_fin['payoff_balance'] = ...\<close> writes into the
  finance frame that the caller passed; the function returns the frame as it is afterwards.
\<close>

definition is_pay_col :: "string \<Rightarrow> bool" where
  "is_pay_col c = (str_contains ''pay'' (lower c) \<and> str_contains ''month'' (lower c))"

definition payoff_cell :: "pylib \<Rightarrow> cell \<Rightarrow> cell" where
  "payoff_cell L x = of_float (fmul (Some (case to_numeric L x of None \<Rightarrow> 0 | Some q \<Rightarrow> q)) (Some 12))"

definition set_payoff :: "pylib \<Rightarrow> table \<Rightarrow> table" where
  "set_payoff L df_fin =
     (let pay_col = find_col is_pay_col df_fin
      in if truthy pay_col
         then set_col ''payoff_balance'' (map (payoff_cell L) (the_col df_fin (the pay_col))) df_fin
         else set_col ''payoff_balance'' (replicate (nrows df_fin) (Num 0)) df_fin)"

text \<open>
  Line 106, \<^verbatim>\<open>master = df_fin[['clean_id', 'payoff_balance']].copy()\<close>, and one round
  of the loop of lines 109--111.
\<close>

definition select_base :: "table \<Rightarrow> table" where
  "select_base df_fin =
     \<lparr>nrows = nrows df_fin,
      cols = [(''clean_id'', the_col df_fin ''clean_id''),
              (''payoff_balance'', the_col df_fin ''payoff_balance'')]\<rparr>"

definition set_meta :: "table \<Rightarrow> table \<Rightarrow> string \<Rightarrow> table" where
  "set_meta df_fin master c =
     (let col = find_col (\<lambda>x. str_contains c (lower x)) df_fin
      in set_col c (if truthy col then the_col df_fin (the col)
                    else replicate (nrows master) (Str ''N/A'')) master)"

definition base_master :: "table \<Rightarrow> table" where
  "base_master df_fin = foldl (set_meta df_fin) (select_base df_fin) [''make'', ''model'', ''year'']"

subsection \<open>Aggregating and merging a source (lines 113--132)\<close>

text \<open>
  The values of the rows of one key, and the two reductions of pandas' \<^verbatim>\<open>groupby\<close>:
  \<^verbatim>\<open>sum\<close> skips NaN (no value at all sums to 0) and \<^verbatim>\<open>max\<close> skips NaN (no value at
  all gives NaN).
\<close>

definition group_values :: "cell \<Rightarrow> column \<Rightarrow> column \<Rightarrow> cell list" where
  "group_values k ks vs = map snd (filter (\<lambda>kv. fst kv = k) (zip ks vs))"

definition present :: "float64 list \<Rightarrow> rat list" where
  "present fs = concat (map (\<lambda>f. case f of None \<Rightarrow> [] | Some q \<Rightarrow> [q]) fs)"

definition sum_group :: "cell list \<Rightarrow> error + cell" where
  "sum_group vs = bind (floats vs) (\<lambda>fs. Inr (Num (sum_list (present fs))))"

definition max_group :: "cell list \<Rightarrow> error + cell" where
  "max_group vs =
     bind (floats vs) (\<lambda>fs. case present fs of [] \<Rightarrow> Inr NaN | q # qs \<Rightarrow> Inr (Num (fold max qs q)))"

text \<open>
  \<^verbatim>\<open>df.groupby('clean_id')[c].sum().reset_index()\<close> (or \<^verbatim>\<open>max\<close>): one row for each key
  that is not missing, as pairs of key and reduced value. pandas sorts the rows by key;
  the left merge looks values up by key, so the order is left out.
\<close>

definition groupby :: "column \<Rightarrow> column \<Rightarrow> (cell list \<Rightarrow> error + cell) \<Rightarrow> error + (cell \<times> cell) list" where
  "groupby ks vs reduce =
     sequence (map (\<lambda>k. bind (reduce (group_values k ks vs)) (\<lambda>v. Inr (k, v)))
                   (remdups (filter (\<lambda>k. k \<noteq> NaN) ks)))"

text \<open>
  \<^verbatim>\<open>master.merge(stats, on='clean_id', how='left')\<close>: the keys of \<open>stats\<close> are distinct,
  so every row of the master table stays, once, and gets the value of its key or NaN. The
  new column is none of the master table's, and comes last.
\<close>

definition merge_left :: "table \<Rightarrow> (cell \<times> cell) list \<Rightarrow> string \<Rightarrow> table" where
  "merge_left master stats out =
     master\<lparr>cols := cols master @
       [(out, map (\<lambda>k. case map_of stats k of None \<Rightarrow> NaN | Some v \<Rightarrow> v) (the_col master ''clean_id''))]\<rparr>"

text \<open>
  One of the three blocks (repairs, odometer, distance): the source \<open>df\<close>, the hint for its
  value column, the reduction and the name of the new column.
\<close>

definition add_source :: "table \<Rightarrow> string \<Rightarrow> (cell list \<Rightarrow> error + cell) \<Rightarrow> string \<Rightarrow> table \<Rightarrow> error + table" where
  "add_source df hint reduce out master =
     (if \<not> is_empty df \<and> has_col ''clean_id'' df
      then (let vcol = find_col (\<lambda>c. str_contains hint (lower c)) df
            in if truthy vcol
               then bind (groupby (the_col df ''clean_id'') (the_col df (the vcol)) reduce)
                      (\<lambda>stats. Inr (merge_left master stats out))
               else Inr master)
      else Inr master)"

text \<open>Line 134, \<^verbatim>\<open>master.fillna(0)\<close>: every missing cell of every column becomes 0.\<close>

definition fillna :: "table \<Rightarrow> table" where
  "fillna t = t\<lparr>cols := map (\<lambda>nc. (fst nc, map fillna_cell (snd nc))) (cols t)\<rparr>"

text \<open>Lines 106--134 together: the master table before the formulas.\<close>

definition merge_master :: "table \<Rightarrow> table \<Rightarrow> table \<Rightarrow> table \<Rightarrow> error + table" where
  "merge_master df_fin df_rep df_odo df_dist =
     bind (add_source df_rep ''amount'' sum_group ''total_repairs'' (base_master df_fin)) (\<lambda>m1.
     bind (add_source df_odo ''odo'' max_group ''odometer'' m1) (\<lambda>m2.
     bind (add_source df_dist ''dist'' sum_group ''recent_miles'' m2) (\<lambda>m3.
     Inr (fillna m3))))"

subsection \<open>The formulas (lines 136--145)\<close>

definition set_floats :: "string \<Rightarrow> float64 list \<Rightarrow> table \<Rightarrow> table" where
  "set_floats c fs t = set_col c (map of_float fs) t"

definition formulas :: "table \<Rightarrow> error + table" where
  "formulas master =
     bind (col master ''odometer'') (\<lambda>odo.
     bind (floats odo) (\<lambda>odo_f.
     let master1 = set_floats ''est_resale''
           (map (\<lambda>x. fsub (Some 65000) (fmul x (Some (5 / 100)))) odo_f) master
     in
     bind (col master1 ''est_resale'') (\<lambda>res.
     bind (floats res) (\<lambda>res_f.
     let master2 = set_floats ''est_resale'' (map (clip_lower 10000) res_f) master1
     in
     bind (col master2 ''est_resale'') (\<lambda>res2.
     bind (col master2 ''payoff_balance'') (\<lambda>pay.
     bind (floats res2) (\<lambda>res2_f.
     bind (floats pay) (\<lambda>pay_f.
     let master3 = set_floats ''net_equity'' (map (\<lambda>rp. fsub (fst rp) (snd rp)) (zip res2_f pay_f)) master2
     in
     bind (col master3 ''total_repairs'') (\<lambda>tr.
     bind (col master3 ''recent_miles'') (\<lambda>rm.
     bind (floats tr) (\<lambda>tr_f.
     bind (floats (map replace_0_1 rm)) (\<lambda>rm_f.
     bind (sequence (map (\<lambda>tm. fdiv (fst tm) (snd tm)) (zip tr_f rm_f))) (\<lambda>cpm_f.
     Inr (set_floats ''cpm'' cpm_f master3))))))))))))))"

subsection \<open>The recommendation (lines 165--167)\<close>

definition make_rows :: "float64 list \<Rightarrow> float64 list \<Rightarrow> float64 list \<Rightarrow> float64 list \<Rightarrow> row list" where
  "make_rows odo c ne rm =
     map (\<lambda>q. \<lparr>odometer = fst q, cpm = fst (snd q), net_equity = fst (snd (snd q)),
               recent_miles = snd (snd (snd q))\<rparr>)
         (zip odo (zip c (zip ne rm)))"

definition classify :: "pylib \<Rightarrow> table \<Rightarrow> error + table" where
  "classify L master =
     bind (col master ''odometer'') (\<lambda>odo.
     bind (col master ''cpm'') (\<lambda>c.
     bind (col master ''net_equity'') (\<lambda>ne.
     bind (col master ''recent_miles'') (\<lambda>rm.
     bind (floats odo) (\<lambda>odo_f.
     bind (floats c) (\<lambda>c_f.
     bind (floats ne) (\<lambda>ne_f.
     bind (floats rm) (\<lambda>rm_f.
     let res = map (get_rec (fmt2f L)) (make_rows odo_f c_f ne_f rm_f)
     in Inr (set_col ''Reasoning'' (map (\<lambda>r. Str (snd r)) res)
              (set_col ''Action'' (map (\<lambda>r. Str (fst r)) res) master))))))))))"

subsection \<open>\<^verbatim>\<open>run_logic\<close>\<close>

text \<open>
  The argument \<open>dfs\<close> is the dictionary of the session's frames by role; each role has
  a frame of its own (the loader builds them one by one). The result is the dictionary as
  the call leaves it (the finance frame is written at lines 102/104, before anything can
  raise) and either the exception raised or the master table returned.
\<close>

definition get_df :: "(string \<rightharpoonup> table) \<Rightarrow> string \<Rightarrow> table" where
  "get_df dfs role = (case dfs role of None \<Rightarrow> empty_df | Some t \<Rightarrow> t)"

definition run_logic :: "pylib \<Rightarrow> (string \<rightharpoonup> table) \<Rightarrow> (string \<rightharpoonup> table) \<times> (error + table)" where
  "run_logic L dfs =
     (let df_fin = get_df dfs ''finance'';
          df_rep = get_df dfs ''repairs'';
          df_odo = get_df dfs ''odometer'';
          df_dist = get_df dfs ''distance''
      in if is_empty df_fin \<or> \<not> has_col ''clean_id'' df_fin
         then (dfs, Inr empty_df)
         else (let df_fin' = set_payoff L df_fin
               in (dfs(''finance'' \<mapsto> df_fin'),
                   bind (merge_master df_fin' df_rep df_odo df_dist) (\<lambda>master.
                   bind (formulas master) (\<lambda>master'.
                   classify L master')))))"

section \<open>Concrete inputs\<close>

text \<open>A library whose number reader reads nothing and whose format prints a mark.\<close>

definition lib0 :: pylib where
  "lib0 = \<lparr>parse_number = (\<lambda>s. None), fmt2f = (\<lambda>x. ''?'')\<rparr>"

text \<open>
  The end-to-end scenario of the specification: one vehicle \<^verbatim>\<open>SPOT-77\<close> paying 500 a
  month, two repairs of 9000 in total, a highest odometer reading of 520000 and 2500
  recent miles. The repairs table has a row of another vehicle as well.
\<close>

definition fin77 :: table where
  "fin77 = \<lparr>nrows = 1,
            cols = [(''unit_id'', [Str ''SPOT-77'']), (''Payment/Month'', [Num 500]),
                    (''clean_id'', [Str ''77''])]\<rparr>"

definition rep77 :: table where
  "rep77 = \<lparr>nrows = 3,
            cols = [(''truck'', [Str ''77'', Str ''77'', Str ''5'']),
                    (''Amount'', [Num 4000, Num 5000, Num 1]),
                    (''clean_id'', [Str ''77'', Str ''77'', Str ''5''])]\<rparr>"

definition odo77 :: table where
  "odo77 = \<lparr>nrows = 2,
            cols = [(''truck'', [Str ''77'', Str ''77'']),
                    (''Odometer'', [Num 520000, Num 100]),
                    (''clean_id'', [Str ''77'', Str ''77''])]\<rparr>"

definition dist77 :: table where
  "dist77 = \<lparr>nrows = 2,
             cols = [(''truck'', [Str ''77'', Str ''77'']),
                     (''Distance'', [Num 2000, Num 500]),
                     (''clean_id'', [Str ''77'', Str ''77''])]\<rparr>"

definition dfs77 :: "string \<rightharpoonup> table" where
  "dfs77 = [''finance'' \<mapsto> fin77, ''repairs'' \<mapsto> rep77, ''odometer'' \<mapsto> odo77,
            ''distance'' \<mapsto> dist77]"

definition master77 :: table where
  "master77 = \<lparr>nrows = 1,
     cols = [(''clean_id'', [Str ''77'']), (''payoff_balance'', [Num 6000]),
             (''make'', [Str ''N/A'']), (''model'', [Str ''N/A'']), (''year'', [Str ''N/A'']),
             (''total_repairs'', [Num 9000]), (''odometer'', [Num 520000]),
             (''recent_miles'', [Num 2500]), (''est_resale'', [Num 39000]),
             (''net_equity'', [Num 33000]), (''cpm'', [Num (18 / 5)]),
             (''Action'', [Str ''SELL'']),
             (''Reasoning'', [Str ''High Miles, High CPM ($?), Pos Equity''])]\<rparr>"

text \<open>The finance table alone: the files of the three other sources are absent.\<close>

definition dfs_fin_only :: "string \<rightharpoonup> table" where
  "dfs_fin_only = [''finance'' \<mapsto> fin77]"

text \<open>No finance table, and a finance table with rows but no \<^verbatim>\<open>clean_id\<close> column.\<close>

definition dfs_no_fin :: "string \<rightharpoonup> table" where
  "dfs_no_fin = [''repairs'' \<mapsto> rep77]"

definition dfs_no_key :: "string \<rightharpoonup> table" where
  "dfs_no_key = [''finance'' \<mapsto> \<lparr>nrows = 1, cols = [(''Payment/Month'', [Num 500])]\<rparr>]"

text \<open>A frame without one of its columns, to say what a write leaves as it was.\<close>

definition without_col :: "string \<Rightarrow> table \<Rightarrow> table" where
  "without_col c t = t\<lparr>cols := AList.delete c (cols t)\<rparr>"

text \<open>
  One vehicle whose raw identifier is \<^verbatim>\<open>SPOT-1001\<close> in the finance table and
  \<^verbatim>\<open> 1001 \<close> (with blanks) in the table that serves as the three other sources.
\<close>

definition fin1001 :: table where
  "fin1001 = \<lparr>nrows = 1,
              cols = [(''unit_id'', [Str ''SPOT-1001'']),
                      (''clean_id'', [Str (clean_id ''SPOT-1001'')])]\<rparr>"

definition src1001 :: table where
  "src1001 = \<lparr>nrows = 1,
              cols = [(''truck'', [Str '' 1001 '']), (''Amount'', [Num 100]),
                      (''Odometer'', [Num 100000]), (''Distance'', [Num 5000]),
                      (''clean_id'', [Str (clean_id '' 1001 '')])]\<rparr>"

definition dfs1001 :: "string \<rightharpoonup> table" where
  "dfs1001 = [''finance'' \<mapsto> fin1001, ''repairs'' \<mapsto> src1001, ''odometer'' \<mapsto> src1001,
              ''distance'' \<mapsto> src1001]"

definition master1001 :: table where
  "master1001 = \<lparr>nrows = 1,
     cols = [(''clean_id'', [Str ''1001'']), (''payoff_balance'', [Num 0]),
             (''make'', [Str ''N/A'']), (''model'', [Str ''N/A'']), (''year'', [Str ''N/A'']),
             (''total_repairs'', [Num 100]), (''odometer'', [Num 100000]),
             (''recent_miles'', [Num 5000]), (''est_resale'', [Num 60000]),
             (''net_equity'', [Num 60000]), (''cpm'', [Num (1 / 50)]),
             (''Action'', [Str ''KEEP'']), (''Reasoning'', [Str ''Pos Equity''])]\<rparr>"

text \<open>
  A roster of two vehicles. Vehicle 77 has several rows in every source, vehicle 88 has
  none, and the repairs table has a row of a vehicle 5 that the roster does not have.
\<close>

definition fin2 :: table where
  "fin2 = \<lparr>nrows = 2,
           cols = [(''unit_id'', [Str ''SPOT-77'', Str ''SPOT-88'']),
                   (''Payment/Month'', [Num 500, Str ''n/a'']),
                   (''Make'', [Str ''Volvo'', NaN]),
                   (''clean_id'', [Str ''77'', Str ''88''])]\<rparr>"

definition dfs2 :: "string \<rightharpoonup> table" where
  "dfs2 = [''finance'' \<mapsto> fin2, ''repairs'' \<mapsto> rep77, ''odometer'' \<mapsto> odo77,
           ''distance'' \<mapsto> dist77]"

definition master2 :: table where
  "master2 = \<lparr>nrows = 2,
     cols = [(''clean_id'', [Str ''77'', Str ''88'']),
             (''payoff_balance'', [Num 6000, Num 0]),
             (''make'', [Str ''Volvo'', Num 0]),
             (''model'', [Str ''N/A'', Str ''N/A'']),
             (''year'', [Str ''N/A'', Str ''N/A'']),
             (''total_repairs'', [Num 9000, Num 0]),
             (''odometer'', [Num 520000, Num 0]),
             (''recent_miles'', [Num 2500, Num 0]),
             (''est_resale'', [Num 39000, Num 65000]),
             (''net_equity'', [Num 33000, Num 65000]),
             (''cpm'', [Num (18 / 5), Num 0]),
             (''Action'', [Str ''SELL'', Str ''INSPECT'']),
             (''Reasoning'', [Str ''High Miles, High CPM ($?), Pos Equity'', Str ''Pos Equity''])]\<rparr>"

text \<open>
  The guard of a source block (lines 114--116, 121--123, 128--130): the source is not
  empty, has a \<^verbatim>\<open>clean_id\<close> column and a column that the hint finds.
\<close>

definition resolvable :: "table \<Rightarrow> string \<Rightarrow> bool" where
  "resolvable df hint =
     (\<not> is_empty df \<and> has_col ''clean_id'' df \<and>
      truthy (find_col (\<lambda>c. str_contains hint (lower c)) df))"

text \<open>
  A value column is numeric when the column that the hint finds holds no text.
\<close>

definition is_text :: "cell \<Rightarrow> bool" where
  "is_text x = (case x of Str s \<Rightarrow> True | _ \<Rightarrow> False)"

definition numeric_values :: "table \<Rightarrow> string \<Rightarrow> bool" where
  "numeric_values df hint =
     (case find_col (\<lambda>c. str_contains hint (lower c)) df of
        None \<Rightarrow> True
      | Some c \<Rightarrow> list_all (\<lambda>x. \<not> is_text x) (the_col df c))"

section \<open>Properties of the classifier\<close>

lemma get_rec_action:
  "fst (get_rec fmt2 r) =
     (if rule_A r then ''SELL'' else if rule_B r then ''KEEP''
      else if rule_C r then ''INSPECT'' else ''INSPECT'')"
  by (simp add: get_rec_def rule_A_def rule_B_def rule_C_def Let_def)

text \<open>
  Claim C3. A row that satisfies both the Rule A condition and the Rule B condition is
  classified SELL. Rule A is tried before Rule B and Rule B before Rule C: the Action is
  SELL when Rule A holds, KEEP when Rule A fails and Rule B holds, INSPECT when both fail
  and Rule C holds, and INSPECT when none of the three holds.
\<close>

theorem get_rec_priority:
  "(rule_A r \<and> rule_B r \<longrightarrow> fst (get_rec fmt2 r) = ''SELL'') \<and>
   (rule_A r \<longrightarrow> fst (get_rec fmt2 r) = ''SELL'') \<and>
   (\<not> rule_A r \<and> rule_B r \<longrightarrow> fst (get_rec fmt2 r) = ''KEEP'') \<and>
   (\<not> rule_A r \<and> \<not> rule_B r \<and> rule_C r \<longrightarrow> fst (get_rec fmt2 r) = ''INSPECT'') \<and>
   (\<not> rule_A r \<and> \<not> rule_B r \<and> \<not> rule_C r \<longrightarrow> fst (get_rec fmt2 r) = ''INSPECT'')"
  by (simp add: get_rec_action)

theorem get_rec_priority_witness:
  "rule_A row_AB \<and> rule_B row_AB \<and> fst (get_rec (\<lambda>x. []) row_AB) = ''SELL'' \<and>
   \<not> rule_A row_B \<and> rule_B row_B \<and> fst (get_rec (\<lambda>x. []) row_B) = ''KEEP'' \<and>
   \<not> rule_A row_C \<and> \<not> rule_B row_C \<and> rule_C row_C \<and>
   fst (get_rec (\<lambda>x. []) row_C) = ''INSPECT'' \<and>
   \<not> rule_A row_none \<and> \<not> rule_B row_none \<and> \<not> rule_C row_none \<and>
   fst (get_rec (\<lambda>x. []) row_none) = ''INSPECT''"
proof -
  have ab: "rule_A row_AB \<and> rule_B row_AB"
    by (simp add: rule_A_def rule_B_def row_AB_def gt_def lt_def)
  have b: "\<not> rule_A row_B \<and> rule_B row_B"
    by (simp add: rule_A_def rule_B_def row_B_def gt_def lt_def)
  have c: "\<not> rule_A row_C \<and> \<not> rule_B row_C \<and> rule_C row_C"
    by (simp add: rule_A_def rule_B_def rule_C_def row_C_def gt_def lt_def)
  have n: "\<not> rule_A row_none \<and> \<not> rule_B row_none \<and> \<not> rule_C row_none"
    by (simp add: rule_A_def rule_B_def rule_C_def row_none_def gt_def lt_def)
  have 1: "fst (get_rec (\<lambda>x. []) row_AB) = ''SELL''"
    using ab get_rec_priority [of row_AB "\<lambda>x. []"] by simp
  have 2: "fst (get_rec (\<lambda>x. []) row_B) = ''KEEP''"
    using b get_rec_priority [of row_B "\<lambda>x. []"] by simp
  have 3: "fst (get_rec (\<lambda>x. []) row_C) = ''INSPECT''"
    using c get_rec_priority [of row_C "\<lambda>x. []"] by simp
  have 4: "fst (get_rec (\<lambda>x. []) row_none) = ''INSPECT''"
    using n get_rec_priority [of row_none "\<lambda>x. []"] by simp
  from ab b c n 1 2 3 4 show ?thesis
    by simp
qed

text \<open>
  Claim C10. The Action of \<^verbatim>\<open>get_rec\<close> is that of the simpler classifier: the
  explicit Rule C branch assigns the value the Action has by default, so the Action is
  INSPECT exactly when neither Rule A nor Rule B holds.
\<close>

theorem get_rec_simple_action:
  "fst (get_rec fmt2 r) = simple_action r \<and>
   (fst (get_rec fmt2 r) = ''INSPECT'') = (\<not> rule_A r \<and> \<not> rule_B r)"
  by (simp add: get_rec_action simple_action_def)

section \<open>Facts about frames and exceptions\<close>

lemma bind_Inl [simp]: "bind (Inl e) f = Inl e"
  by (simp add: bind_def)

lemma bind_Inr [simp]: "bind (Inr v) f = f v"
  by (simp add: bind_def)

lemma bind_eq_Inr: "(bind x f = Inr y) = (\<exists>v. x = Inr v \<and> f v = Inr y)"
  by (cases x) simp_all

lemma bind_eq_Inl: "(bind x f = Inl e) = (x = Inl e \<or> (\<exists>v. x = Inr v \<and> f v = Inl e))"
  by (cases x) simp_all

lemma nrows_set_col [simp]: "nrows (set_col c xs t) = nrows t"
  by (simp add: set_col_def)

lemma cols_set_col: "cols (set_col c xs t) = AList.update c xs (cols t)"
  by (simp add: set_col_def)

lemma map_of_set_col [simp]:
  "map_of (cols (set_col c xs t)) k = (if k = c then Some xs else map_of (cols t) k)"
  by (simp add: set_col_def update_conv')

lemma col_set_col [simp]: "col (set_col c xs t) k = (if k = c then Inr xs else col t k)"
  by (simp add: col_def)

lemma the_col_set_col [simp]: "the_col (set_col c xs t) k = (if k = c then xs else the_col t k)"
  by (simp add: the_col_def)

lemma columns_set_col:
  "columns (set_col c xs t) = (if c \<in> set (columns t) then columns t else columns t @ [c])"
  by (simp add: columns_def set_col_def update_keys)

lemma has_col_set_col [simp]: "has_col k (set_col c xs t) = (k = c \<or> has_col k t)"
  by (auto simp: has_col_def columns_set_col)

lemma is_empty_set_col [simp]: "\<not> is_empty t \<Longrightarrow> \<not> is_empty (set_col c xs t)"
  by (cases "cols t") (auto simp: is_empty_def set_col_def)

lemma set_col_twice [simp]: "set_col c xs (set_col c ys t) = set_col c xs t"
  by (simp add: set_col_def update_last)

lemma find_append:
  "List.find P (xs @ ys) = (case List.find P xs of None \<Rightarrow> List.find P ys | Some x \<Rightarrow> Some x)"
  by (induction xs) auto

lemma find_col_set_col:
  "\<not> P c \<Longrightarrow> find_col P (set_col c xs t) = find_col P t"
  by (simp add: find_col_def columns_set_col find_append split: option.splits)

lemma find_col_holds: "find_col P t = Some c \<Longrightarrow> P c"
  by (auto simp: find_col_def find_Some_iff)

lemma find_col_present: "find_col P t = Some c \<Longrightarrow> has_col c t \<and> map_of (cols t) c \<noteq> None"
proof -
  assume "find_col P t = Some c"
  then have "c \<in> set (columns t)"
    by (auto simp: find_col_def find_Some_iff)
  then show ?thesis
    by (auto simp: has_col_def columns_def map_of_eq_None_iff)
qed

lemma not_pay_col_payoff [simp]: "\<not> is_pay_col ''payoff_balance''"
  by (simp add: is_pay_col_def lower_def lower_char_def)

lemma set_payoff_cases:
  "\<exists>xs. set_payoff L t = set_col ''payoff_balance'' xs t"
  by (auto simp: set_payoff_def Let_def)

lemma set_payoff_idem: "set_payoff L (set_payoff L t) = set_payoff L t"
proof -
  obtain xs where xs: "set_payoff L t = set_col ''payoff_balance'' xs t"
    using set_payoff_cases by blast
  have f: "find_col is_pay_col (set_col ''payoff_balance'' xs t) = find_col is_pay_col t"
    by (simp add: find_col_set_col)
  show ?thesis
  proof (cases "truthy (find_col is_pay_col t)")
    case True
    then obtain c where c: "find_col is_pay_col t = Some c"
      by (auto simp: truthy_def split: option.splits)
    then have "c \<noteq> ''payoff_balance''"
      using find_col_holds not_pay_col_payoff by blast
    with True c f show ?thesis
      by (simp add: set_payoff_def xs [symmetric] Let_def)
  next
    case False
    with f show ?thesis
      by (simp add: set_payoff_def xs [symmetric] Let_def)
  qed
qed

lemma get_df_upd [simp]:
  "get_df (dfs(r \<mapsto> t)) r' = (if r' = r then t else get_df dfs r')"
  by (simp add: get_df_def)

lemma set_payoff_nonempty: "\<not> is_empty t \<Longrightarrow> \<not> is_empty (set_payoff L t)"
  by (simp add: set_payoff_def Let_def)

lemma set_payoff_has_col: "has_col ''clean_id'' (set_payoff L t) = has_col ''clean_id'' t"
  by (simp add: set_payoff_def Let_def)


section \<open>Properties of the engine\<close>

text \<open>
  Claim C9. When the finance table is empty (or absent) or has no \<^verbatim>\<open>clean_id\<close> column,
  \<^verbatim>\<open>run_logic\<close> returns the empty frame, raises nothing and writes nothing.
\<close>

theorem run_logic_no_roster:
  "is_empty (get_df dfs ''finance'') \<or> \<not> has_col ''clean_id'' (get_df dfs ''finance'') \<Longrightarrow>
   run_logic L dfs = (dfs, Inr empty_df)"
  by (simp add: run_logic_def)

theorem run_logic_no_roster_witness:
  "is_empty (get_df dfs_no_fin ''finance'') \<and>
   run_logic lib0 dfs_no_fin = (dfs_no_fin, Inr empty_df) \<and>
   \<not> has_col ''clean_id'' (get_df dfs_no_key ''finance'') \<and>
   run_logic lib0 dfs_no_key = (dfs_no_key, Inr empty_df)"
proof -
  have a: "is_empty (get_df dfs_no_fin ''finance'')"
    by (simp add: dfs_no_fin_def get_df_def is_empty_def empty_df_def)
  have b: "\<not> has_col ''clean_id'' (get_df dfs_no_key ''finance'')"
    by (simp add: dfs_no_key_def get_df_def has_col_def columns_def)
  from a b run_logic_no_roster [of dfs_no_fin lib0] run_logic_no_roster [of dfs_no_key lib0]
  show ?thesis
    by blast
qed

text \<open>
  Claim C7. A second call of \<^verbatim>\<open>run_logic\<close> on the frames as the first call left them
  returns what the first call returned (the same master table, or the same exception),
  and leaves the frames as the first call left them.
\<close>

theorem run_logic_twice: "run_logic L (fst (run_logic L dfs)) = run_logic L dfs"
proof (cases "is_empty (get_df dfs ''finance'') \<or> \<not> has_col ''clean_id'' (get_df dfs ''finance'')")
  case True
  then show ?thesis
    by (simp add: run_logic_def)
next
  case False
  then show ?thesis
    by (simp add: run_logic_def Let_def set_payoff_nonempty set_payoff_has_col set_payoff_idem)
qed


text \<open>
  Claim C6, as stated, fails: with the finance table of the scenario the call leaves a
  finance frame that has one column more, \<^verbatim>\<open>payoff_balance\<close>.
\<close>

theorem run_logic_writes_finance:
  "fst (run_logic lib0 dfs_fin_only) ''finance'' \<noteq> dfs_fin_only ''finance''"
  by (simp add: run_logic_def dfs_fin_only_def fin77_def get_df_def is_empty_def has_col_def
      columns_def set_payoff_def set_col_def Let_def)

text \<open>
  Claim C6, amended. \<^verbatim>\<open>run_logic\<close> leaves every frame but the finance frame as it was,
  adds no frame and removes none, and changes the finance frame in its column
  \<^verbatim>\<open>payoff_balance\<close> only: the other columns keep their names, order and cells, and the
  frame keeps its number of rows. A finance frame that is not empty and has a
  \<^verbatim>\<open>clean_id\<close> column has the column \<^verbatim>\<open>payoff_balance\<close> afterwards.
\<close>

theorem run_logic_frame:
  "(r \<noteq> ''finance'' \<longrightarrow> fst (run_logic L dfs) r = dfs r) \<and>
   dom (fst (run_logic L dfs)) = dom dfs \<and>
   without_col ''payoff_balance'' (get_df (fst (run_logic L dfs)) ''finance'') =
     without_col ''payoff_balance'' (get_df dfs ''finance'') \<and>
   (\<not> is_empty (get_df dfs ''finance'') \<and> has_col ''clean_id'' (get_df dfs ''finance'') \<longrightarrow>
      has_col ''payoff_balance'' (get_df (fst (run_logic L dfs)) ''finance''))"
proof (cases "is_empty (get_df dfs ''finance'') \<or> \<not> has_col ''clean_id'' (get_df dfs ''finance'')")
  case True
  then show ?thesis
    by (auto simp: run_logic_def)
next
  case False
  then have "dfs ''finance'' \<noteq> None"
    by (auto simp: get_df_def is_empty_def empty_df_def split: option.splits)
  then have d: "insert ''finance'' (dom dfs) = dom dfs"
    by auto
  obtain xs where xs: "set_payoff L (get_df dfs ''finance'') =
      set_col ''payoff_balance'' xs (get_df dfs ''finance'')"
    using set_payoff_cases by blast
  from False d show ?thesis
    by (simp add: run_logic_def Let_def xs without_col_def set_col_def delete_update_same
        has_col_def columns_def update_keys)
qed

theorem run_logic_frame_witness:
  "''repairs'' \<noteq> ''finance'' \<and>
   fst (run_logic lib0 dfs77) ''repairs'' = dfs77 ''repairs'' \<and>
   dom (fst (run_logic lib0 dfs77)) = dom dfs77 \<and>
   without_col ''payoff_balance'' (get_df (fst (run_logic lib0 dfs77)) ''finance'') =
     without_col ''payoff_balance'' (get_df dfs77 ''finance'') \<and>
   \<not> is_empty (get_df dfs77 ''finance'') \<and> has_col ''clean_id'' (get_df dfs77 ''finance'') \<and>
   has_col ''payoff_balance'' (get_df (fst (run_logic lib0 dfs77)) ''finance'')"
proof -
  have a: "\<not> is_empty (get_df dfs77 ''finance'') \<and> has_col ''clean_id'' (get_df dfs77 ''finance'')"
    by (simp add: dfs77_def get_df_def fin77_def is_empty_def has_col_def columns_def)
  with run_logic_frame [of "''repairs''" lib0 dfs77] show ?thesis
    by simp
qed

section \<open>Properties of the canonical key\<close>

lemma remove_all_none: "\<not> str_contains old s \<Longrightarrow> remove_all old s = s"
  by (induction s) auto

lemma remove_all_front: "remove_all ''SPOT-'' (''SPOT-'' @ b) = remove_all ''SPOT-'' b"
  by simp

lemma remove_all_prefix:
  assumes "take 5 s = ''SPOT-''"
  shows "remove_all ''SPOT-'' s = remove_all ''SPOT-'' (drop 5 s)"
proof -
  have "s = ''SPOT-'' @ drop 5 s"
    using assms append_take_drop_id [of 5 s] by simp
  then have "remove_all ''SPOT-'' s = remove_all ''SPOT-'' (''SPOT-'' @ drop 5 s)"
    by simp
  then show ?thesis
    by (simp only: remove_all_front)
qed

lemma str_contains_iff: "str_contains sub s = (\<exists>ps ss. s = ps @ sub @ ss)"
proof (induction s)
  case Nil
  then show ?case by auto
next
  case (Cons c cs)
  show ?case
  proof
    assume "str_contains sub (c # cs)"
    then consider "take (length sub) (c # cs) = sub" | "str_contains sub cs"
      by auto
    then show "\<exists>ps ss. c # cs = ps @ sub @ ss"
    proof cases
      case 1
      then have "c # cs = [] @ sub @ drop (length sub) (c # cs)"
        using append_take_drop_id [of "length sub" "c # cs"] by simp
      then show ?thesis by blast
    next
      case 2
      with Cons.IH obtain ps ss where "cs = ps @ sub @ ss"
        by blast
      then have "c # cs = (c # ps) @ sub @ ss"
        by simp
      then show ?thesis by blast
    qed
  next
    assume "\<exists>ps ss. c # cs = ps @ sub @ ss"
    then obtain ps ss where eq: "c # cs = ps @ sub @ ss"
      by blast
    show "str_contains sub (c # cs)"
    proof (cases ps)
      case Nil
      with eq have "take (length sub) (c # cs) = sub"
        by (metis append_Nil append_eq_conv_conj)
      then show ?thesis by simp
    next
      case (Cons p ps')
      with eq have "cs = ps' @ sub @ ss"
        by simp
      with Cons.IH show ?thesis
        by auto
    qed
  qed
qed

lemma str_contains_length: "str_contains sub s \<Longrightarrow> length sub \<le> length s"
  by (auto simp: str_contains_iff)

lemma take_old_append:
  assumes "old \<noteq> []"
  shows "take (length old) ((x # a) @ old @ b) = take (length old) ((x # a) @ butlast old)"
proof -
  have "(x # a) @ old @ b = ((x # a) @ butlast old) @ (last old # b)"
    using assms by simp
  moreover have "length old \<le> length ((x # a) @ butlast old)"
    by simp
  ultimately show ?thesis
    by (simp only: take_append) simp
qed

lemma remove_all_old_front:
  assumes "old \<noteq> []"
  shows "remove_all old (old @ b) = remove_all old b"
proof -
  from assms obtain c cs where c: "old @ b = c # cs"
    by (cases old) auto
  have "take (length old) (old @ b) = old" "drop (length old) (old @ b) = b"
    by simp_all
  with assms show ?thesis
    unfolding c by simp
qed

lemma remove_all_first_occurrence:
  assumes "old \<noteq> []"
  shows "\<not> str_contains old (a @ butlast old) \<Longrightarrow>
         remove_all old (a @ old @ b) = a @ remove_all old b"
proof (induction a)
  case Nil
  then show ?case
    using remove_all_old_front [OF assms] by simp
next
  case (Cons x a)
  from Cons.prems have 1: "take (length old) ((x # a) @ butlast old) \<noteq> old"
    and 2: "\<not> str_contains old (a @ butlast old)"
    by auto
  from 1 have "take (length old) ((x # a) @ old @ b) \<noteq> old"
    unfolding take_old_append [OF assms] .
  then have "remove_all old ((x # a) @ old @ b) = x # remove_all old (a @ old @ b)"
    by simp
  with Cons.IH [OF 2] show ?case
    by simp
qed

lemma first_occurrence_exists:
  assumes "old \<noteq> []"
  shows "str_contains old s \<Longrightarrow>
         \<exists>a b. s = a @ old @ b \<and> \<not> str_contains old (a @ butlast old)"
proof (induction s)
  case Nil
  with assms show ?case by simp
next
  case (Cons c cs)
  show ?case
  proof (cases "take (length old) (c # cs) = old")
    case True
    then have "c # cs = [] @ old @ drop (length old) (c # cs)"
      using append_take_drop_id [of "length old" "c # cs"] by simp
    moreover have "\<not> str_contains old ([] @ butlast old)"
    proof
      assume "str_contains old ([] @ butlast old)"
      then have "str_contains old (butlast old)"
        by simp
      then have "length old \<le> length (butlast old)"
        by (rule str_contains_length)
      moreover have "length (butlast old) < length old"
        using assms by (cases old rule: rev_cases) simp_all
      ultimately show False
        by linarith
    qed
    ultimately show ?thesis by blast
  next
    case False
    with Cons.prems have "str_contains old cs"
      by simp
    from Cons.IH [OF this] obtain a b where
      ab: "cs = a @ old @ b" "\<not> str_contains old (a @ butlast old)"
      by blast
    have "take (length old) ((x # a) @ butlast old) = take (length old) ((x # a) @ old @ b)" for x
      by (rule take_old_append [OF assms, symmetric])
    with False ab(1) have "take (length old) ((c # a) @ butlast old) \<noteq> old"
      by simp
    with ab(2) have "\<not> str_contains old ((c # a) @ butlast old)"
      by simp
    moreover have "c # cs = (c # a) @ old @ b"
      using ab(1) by simp
    ultimately show ?thesis by blast
  qed
qed

lemma remove_all_first:
  assumes "\<not> str_contains ''SPOT-'' (a @ ''SPOT'')"
  shows "remove_all ''SPOT-'' (a @ ''SPOT-'' @ b) = a @ remove_all ''SPOT-'' b"
proof -
  have "butlast ''SPOT-'' = ''SPOT''" "''SPOT-'' \<noteq> []"
    by simp_all
  with remove_all_first_occurrence [of "''SPOT-''" a b] assms show ?thesis
    by (simp only: not_False_eq_True)
qed

lemma first_occurrence:
  assumes "str_contains ''SPOT-'' s"
  shows "\<exists>a b. s = a @ ''SPOT-'' @ b \<and> \<not> str_contains ''SPOT-'' (a @ ''SPOT'')"
proof -
  have "butlast ''SPOT-'' = ''SPOT''" "''SPOT-'' \<noteq> []"
    by simp_all
  with first_occurrence_exists [of "''SPOT-''" s] assms show ?thesis
    by (simp only: not_False_eq_True)
qed

lemma strip_latin1_blanks: "strip [CHR 0xA0, CHR ''7'', CHR 0x85] = ''7''"
  by (simp add: strip_def is_space_def)

text \<open>
  Claim C8, as stated, fails: the code removes the token wherever it stands, not only as a
  prefix. The identifier \<^verbatim>\<open>A-SPOT-7\<close> gets the key \<^verbatim>\<open>A-7\<close>; removing a prefix
  \<^verbatim>\<open>SPOT-\<close> would leave \<^verbatim>\<open>A-SPOT-7\<close>.
\<close>

theorem clean_id_not_prefix_removal: "clean_id ''A-SPOT-7'' \<noteq> spec_key ''A-SPOT-7''"
  by (simp add: clean_id_def spec_key_def drop_prefix_spot_def strip_def is_space_def)


text \<open>
  Claim C8, amended. The canonical key is the value with the occurrences of \<^verbatim>\<open>SPOT-\<close>
  removed in one pass from the left, wherever they stand, and then trimmed. For every
  value: if the token does not occur, the key is the trimmed value; if it occurs, the
  value splits at its first occurrence into the text before it and the rest, and the key
  is the trimmed text of the part before the token followed by the rest with its
  occurrences removed in the same way. When no occurrence is left once the prefix is
  removed, the key is the value with the prefix removed and trimmed. The identifiers
  \<^verbatim>\<open>SPOT-1001\<close> and \<^verbatim>\<open> 1001 \<close> both get the key \<^verbatim>\<open>1001\<close>.
\<close>

theorem clean_id_removes_token:
  "(\<not> str_contains ''SPOT-'' s \<longrightarrow> clean_id s = strip s) \<and>
   (str_contains ''SPOT-'' s \<longrightarrow>
      (\<exists>p q. s = p @ ''SPOT-'' @ q \<and> \<not> str_contains ''SPOT-'' (p @ ''SPOT'') \<and>
             clean_id s = strip (p @ remove_all ''SPOT-'' q))) \<and>
   (\<not> str_contains ''SPOT-'' (a @ ''SPOT'') \<longrightarrow>
      clean_id (a @ ''SPOT-'' @ b) = strip (a @ remove_all ''SPOT-'' b)) \<and>
   (\<not> str_contains ''SPOT-'' (drop_prefix_spot s) \<longrightarrow> clean_id s = spec_key s) \<and>
   clean_id ''SPOT-1001'' = ''1001'' \<and> clean_id '' 1001 '' = ''1001''"
proof (intro conjI impI)
  assume "\<not> str_contains ''SPOT-'' s"
  then show "clean_id s = strip s"
    by (simp add: clean_id_def remove_all_none)
next
  assume "str_contains ''SPOT-'' s"
  from first_occurrence [OF this] obtain p q where
    pq: "s = p @ ''SPOT-'' @ q" "\<not> str_contains ''SPOT-'' (p @ ''SPOT'')"
    by blast
  have "clean_id s = strip (p @ remove_all ''SPOT-'' q)"
    unfolding clean_id_def pq(1) remove_all_first [OF pq(2)] by (rule refl)
  with pq show "\<exists>p q. s = p @ ''SPOT-'' @ q \<and> \<not> str_contains ''SPOT-'' (p @ ''SPOT'') \<and>
      clean_id s = strip (p @ remove_all ''SPOT-'' q)"
    by blast
next
  assume h: "\<not> str_contains ''SPOT-'' (a @ ''SPOT'')"
  show "clean_id (a @ ''SPOT-'' @ b) = strip (a @ remove_all ''SPOT-'' b)"
    unfolding clean_id_def remove_all_first [OF h] by (rule refl)
next
  assume n: "\<not> str_contains ''SPOT-'' (drop_prefix_spot s)"
  show "clean_id s = spec_key s"
  proof (cases "take 5 s = ''SPOT-''")
    case True
    with n show ?thesis
      by (simp add: clean_id_def spec_key_def drop_prefix_spot_def remove_all_prefix remove_all_none)
  next
    case False
    with n show ?thesis
      by (simp add: clean_id_def spec_key_def drop_prefix_spot_def remove_all_none)
  qed
next
  show "clean_id ''SPOT-1001'' = ''1001''"
    by (simp add: clean_id_def strip_def is_space_def)
next
  show "clean_id '' 1001 '' = ''1001''"
    by (simp add: clean_id_def strip_def is_space_def)
qed

theorem clean_id_removes_token_witness:
  "\<not> str_contains ''SPOT-'' ''77'' \<and> clean_id ''77'' = strip ''77'' \<and>
   str_contains ''SPOT-'' ''BUS-SPOT-7'' \<and>
   (\<exists>p q. ''BUS-SPOT-7'' = p @ ''SPOT-'' @ q \<and> \<not> str_contains ''SPOT-'' (p @ ''SPOT'') \<and>
          clean_id ''BUS-SPOT-7'' = strip (p @ remove_all ''SPOT-'' q)) \<and>
   \<not> str_contains ''SPOT-'' (''BUS-'' @ ''SPOT'') \<and>
   clean_id (''BUS-'' @ ''SPOT-'' @ ''7'') = ''BUS-7'' \<and>
   \<not> str_contains ''SPOT-'' (drop_prefix_spot ''SPOT-1001 '') \<and>
   clean_id ''SPOT-1001 '' = spec_key ''SPOT-1001 ''"
proof -
  have 1: "\<not> str_contains ''SPOT-'' ''77''"
    by simp
  have 2: "str_contains ''SPOT-'' ''BUS-SPOT-7''"
    by simp
  have 3: "\<not> str_contains ''SPOT-'' (''BUS-'' @ ''SPOT'')"
    by simp
  have 4: "\<not> str_contains ''SPOT-'' (drop_prefix_spot ''SPOT-1001 '')"
    by (simp add: drop_prefix_spot_def)
  have 5: "strip (''BUS-'' @ remove_all ''SPOT-'' ''7'') = ''BUS-7''"
    by (simp add: strip_def is_space_def)
  from 1 clean_id_removes_token [of "''77''"] have a: "clean_id ''77'' = strip ''77''"
    by blast
  from 2 clean_id_removes_token [of "''BUS-SPOT-7''"]
  have b: "\<exists>p q. ''BUS-SPOT-7'' = p @ ''SPOT-'' @ q \<and> \<not> str_contains ''SPOT-'' (p @ ''SPOT'') \<and>
          clean_id ''BUS-SPOT-7'' = strip (p @ remove_all ''SPOT-'' q)"
    by blast
  from 3 clean_id_removes_token [of _ "''BUS-''" "''7''"]
  have "clean_id (''BUS-'' @ ''SPOT-'' @ ''7'') = strip (''BUS-'' @ remove_all ''SPOT-'' ''7'')"
    by blast
  then have c: "clean_id (''BUS-'' @ ''SPOT-'' @ ''7'') = ''BUS-7''"
    unfolding 5 .
  from 4 clean_id_removes_token [of "''SPOT-1001 ''"]
  have d: "clean_id ''SPOT-1001 '' = spec_key ''SPOT-1001 ''"
    by blast
  show ?thesis
    by (intro conjI 1 2 3 4 a b c d)
qed

text \<open>
  With the equal keys the rows of the two identifiers join: the master table has one
  record for the vehicle, with the values of the other sources.
\<close>

lemma run_logic_joins_1001: "snd (run_logic lib0 dfs1001) = Inr master1001"
  by code_simp

section \<open>Facts about the stages of the engine\<close>

lemma nrows_fillna [simp]: "nrows (fillna t) = nrows t"
  by (simp add: fillna_def)

lemma map_of_fill:
  "map_of (map (\<lambda>nc. (fst nc, f (snd nc))) al) k = map_option f (map_of al k)"
  by (induction al) auto

lemma col_fillna:
  "col (fillna t) k = (case col t k of Inl e \<Rightarrow> Inl e | Inr xs \<Rightarrow> Inr (map fillna_cell xs))"
  by (simp add: col_def fillna_def map_of_fill split: option.splits)

lemma fillna_cell_not_NaN [simp]: "fillna_cell x \<noteq> NaN"
  by (simp add: fillna_cell_def)

lemma fillna_cell_id: "x \<noteq> NaN \<Longrightarrow> fillna_cell x = x"
  by (simp add: fillna_cell_def)

lemma col_fillna_no_NaN: "col (fillna t) k = Inr xs \<Longrightarrow> NaN \<notin> set xs"
proof -
  assume "col (fillna t) k = Inr xs"
  then obtain ys where "xs = map fillna_cell ys"
    by (auto simp: col_fillna split: sum.splits)
  then show ?thesis
    using fillna_cell_not_NaN by (metis (no_types) imageE list.set_map)
qed

lemma col_merge_left:
  "col (merge_left m stats out) k =
     (case col m k of
        Inr xs \<Rightarrow> Inr xs
      | Inl e \<Rightarrow> if k = out
                 then Inr (map (\<lambda>k. case map_of stats k of None \<Rightarrow> NaN | Some v \<Rightarrow> v) (the_col m ''clean_id''))
                 else Inl e)"
  by (auto simp: col_def merge_left_def map_add_def split: option.splits)

lemma nrows_merge_left [simp]: "nrows (merge_left m stats out) = nrows m"
  by (simp add: merge_left_def)

lemma add_source_cases:
  "add_source df hint reduce out m = Inr m' \<Longrightarrow> m' = m \<or> (\<exists>stats. m' = merge_left m stats out)"
  by (auto simp: add_source_def Let_def bind_eq_Inr split: if_splits)

lemma add_source_col:
  assumes "add_source df hint reduce out m = Inr m'" and "col m k = Inr xs"
  shows "col m' k = Inr xs"
  using add_source_cases [OF assms(1)] assms(2) by (auto simp: col_merge_left)

lemma add_source_other:
  assumes "add_source df hint reduce out m = Inr m'" and "k \<noteq> out"
  shows "col m' k = col m k"
  using add_source_cases [OF assms(1)] assms(2)
  by (auto simp: col_merge_left split: sum.splits)

lemma add_source_nrows:
  "add_source df hint reduce out m = Inr m' \<Longrightarrow> nrows m' = nrows m"
  using add_source_cases by fastforce

lemma col_select_base:
  "col (select_base t) k =
     (if k = ''clean_id'' then Inr (the_col t ''clean_id'')
      else if k = ''payoff_balance'' then Inr (the_col t ''payoff_balance'')
      else Inl (KeyError k))"
  by (simp add: col_def select_base_def)

lemma col_base_master_key: "col (base_master t) ''clean_id'' = Inr (the_col t ''clean_id'')"
  by (simp add: base_master_def set_meta_def Let_def col_select_base)

lemma col_base_master_payoff:
  "col (base_master t) ''payoff_balance'' = Inr (the_col t ''payoff_balance'')"
  by (simp add: base_master_def set_meta_def Let_def col_select_base)

lemma col_base_master_none:
  "k \<notin> {''clean_id'', ''payoff_balance'', ''make'', ''model'', ''year''} \<Longrightarrow>
   col (base_master t) k = Inl (KeyError k)"
  by (simp add: base_master_def set_meta_def Let_def col_select_base)

lemma nrows_base_master [simp]: "nrows (base_master t) = nrows t"
  by (simp add: base_master_def set_meta_def Let_def select_base_def)

lemma merge_master_Inr:
  assumes "merge_master fin rep odo dst = Inr m"
  shows "\<exists>m3. m = fillna m3 \<and> nrows m = nrows fin \<and>
           col m ''clean_id'' = Inr (map fillna_cell (the_col fin ''clean_id'')) \<and>
           col m ''payoff_balance'' = Inr (map fillna_cell (the_col fin ''payoff_balance''))"
proof -
  from assms obtain m1 m2 m3 where
    1: "add_source rep ''amount'' sum_group ''total_repairs'' (base_master fin) = Inr m1" and
    2: "add_source odo ''odo'' max_group ''odometer'' m1 = Inr m2" and
    3: "add_source dst ''dist'' sum_group ''recent_miles'' m2 = Inr m3" and
    m: "m = fillna m3"
    by (auto simp: merge_master_def bind_eq_Inr)
  have k: "col m3 ''clean_id'' = Inr (the_col fin ''clean_id'')"
    using add_source_col [OF 3] add_source_col [OF 2] add_source_col [OF 1] col_base_master_key
    by blast
  have p: "col m3 ''payoff_balance'' = Inr (the_col fin ''payoff_balance'')"
    using add_source_col [OF 3] add_source_col [OF 2] add_source_col [OF 1] col_base_master_payoff
    by blast
  have n: "nrows m3 = nrows fin"
    using add_source_nrows [OF 3] add_source_nrows [OF 2] add_source_nrows [OF 1] by simp
  from k p n m show ?thesis
    by (auto simp: col_fillna)
qed

lemma to_float_of_float [simp]: "to_float (of_float f) = Inr f"
  by (cases f) simp_all

lemma floats_of_float [simp]: "floats (map of_float fs) = Inr fs"
  by (induction fs) (simp_all add: floats_def)

lemma floats_of_float_comp [simp]: "floats (map (of_float \<circ> f) xs) = Inr (map f xs)"
  using floats_of_float [of "map f xs"] by (simp del: floats_of_float)

lemma to_float_Inl: "to_float x = Inl e \<Longrightarrow> e = TypeError"
  by (cases x) simp_all

lemma floats_Inl: "floats xs = Inl e \<Longrightarrow> e = TypeError"
  by (induction xs) (auto simp: floats_def bind_eq_Inl dest: to_float_Inl)

lemma floats_no_NaN:
  "floats xs = Inr fs \<Longrightarrow> NaN \<notin> set xs \<Longrightarrow> \<exists>qs. xs = map Num qs \<and> fs = map Some qs"
proof (induction xs arbitrary: fs)
  case Nil
  then show ?case by (simp add: floats_def)
next
  case (Cons x xs)
  from Cons.prems obtain f fs' where
    f: "to_float x = Inr f" and fs': "floats xs = Inr fs'" and fs: "fs = f # fs'"
    by (auto simp: floats_def bind_eq_Inr)
  from Cons.prems f obtain q where q: "x = Num q" "f = Some q"
    by (cases x) auto
  from Cons.IH [OF fs'] Cons.prems obtain qs where "xs = map Num qs" "fs' = map Some qs"
    by auto
  with q fs have "x # xs = map Num (q # qs) \<and> fs = map Some (q # qs)"
    by simp
  then show ?case by (rule exI [of _ "q # qs"])
qed

lemma col_set_floats [simp]:
  "col (set_floats c fs t) k = (if k = c then Inr (map of_float fs) else col t k)"
  by (simp add: set_floats_def)

lemma nrows_set_floats [simp]: "nrows (set_floats c fs t) = nrows t"
  by (simp add: set_floats_def)

lemma set_floats_twice [simp]: "set_floats c fs (set_floats c gs t) = set_floats c fs t"
  by (simp add: set_floats_def)

lemma formulas_Inr:
  assumes "formulas m = Inr m'"
  shows "\<exists>odo odo_f pay pay_f tr rm tr_f rm_f cpm_f.
           col m ''odometer'' = Inr odo \<and> floats odo = Inr odo_f \<and>
           col m ''payoff_balance'' = Inr pay \<and> floats pay = Inr pay_f \<and>
           col m ''total_repairs'' = Inr tr \<and> floats tr = Inr tr_f \<and>
           col m ''recent_miles'' = Inr rm \<and> floats (map replace_0_1 rm) = Inr rm_f \<and>
           sequence (map (\<lambda>tm. fdiv (fst tm) (snd tm)) (zip tr_f rm_f)) = Inr cpm_f \<and>
           m' = set_floats ''cpm'' cpm_f
                  (set_floats ''net_equity''
                     (map (\<lambda>rp. fsub (fst rp) (snd rp))
                        (zip (map (clip_lower 10000)
                                (map (\<lambda>x. fsub (Some 65000) (fmul x (Some (5 / 100)))) odo_f)) pay_f))
                  (set_floats ''est_resale''
                     (map (clip_lower 10000)
                        (map (\<lambda>x. fsub (Some 65000) (fmul x (Some (5 / 100)))) odo_f)) m))"
  using assms by (auto simp: formulas_def bind_eq_Inr Let_def)

lemma classify_Inr:
  assumes "classify L m = Inr m'"
  shows "\<exists>a r. m' = set_col ''Reasoning'' r (set_col ''Action'' a m)"
  using assms by (auto simp: classify_def bind_eq_Inr Let_def)

section \<open>The master table and the roster\<close>

lemma col_Inr_has_col: "col t c = Inr xs \<Longrightarrow> has_col c t \<and> the_col t c = xs"
  by (auto simp: col_def the_col_def has_col_def columns_def map_of_eq_None_iff
      split: option.splits dest: map_of_SomeD intro: rev_image_eqI)

lemma has_col_col: "has_col c t \<Longrightarrow> \<exists>xs. col t c = Inr xs"
  by (cases "map_of (cols t) c") (auto simp: col_def has_col_def columns_def map_of_eq_None_iff)

lemma col_Inl: "col t c = Inl e \<Longrightarrow> e = KeyError c"
  by (auto simp: col_def split: option.splits)

lemma the_col_set_payoff:
  "k \<noteq> ''payoff_balance'' \<Longrightarrow> the_col (set_payoff L t) k = the_col t k"
  by (simp add: set_payoff_def Let_def)

lemma nrows_set_payoff [simp]: "nrows (set_payoff L t) = nrows t"
  by (simp add: set_payoff_def Let_def)

lemma run_logic_Inr:
  assumes "snd (run_logic L dfs) = Inr master" and "master \<noteq> empty_df"
  shows "\<not> is_empty (get_df dfs ''finance'') \<and> has_col ''clean_id'' (get_df dfs ''finance'') \<and>
         (\<exists>m m'. merge_master (set_payoff L (get_df dfs ''finance'')) (get_df dfs ''repairs'')
                    (get_df dfs ''odometer'') (get_df dfs ''distance'') = Inr m \<and>
                  formulas m = Inr m' \<and> classify L m' = Inr master)"
  using assms by (auto simp: run_logic_def Let_def bind_eq_Inr split: if_splits)

lemma run_logic_Inr':
  assumes "snd (run_logic L dfs) = Inr master" and "\<not> is_empty (get_df dfs ''finance'')"
    and "has_col ''clean_id'' (get_df dfs ''finance'')"
  shows "\<exists>m m'. merge_master (set_payoff L (get_df dfs ''finance'')) (get_df dfs ''repairs'')
                    (get_df dfs ''odometer'') (get_df dfs ''distance'') = Inr m \<and>
                  formulas m = Inr m' \<and> classify L m' = Inr master"
  using assms by (auto simp: run_logic_def Let_def bind_eq_Inr split: if_splits)

lemma formulas_other:
  assumes "formulas m = Inr m'" and "k \<notin> {''est_resale'', ''net_equity'', ''cpm''}"
  shows "col m' k = col m k \<and> nrows m' = nrows m"
  using formulas_Inr [OF assms(1)] assms(2) by auto

lemma classify_other:
  assumes "classify L m = Inr m'" and "k \<notin> {''Action'', ''Reasoning''}"
  shows "col m' k = col m k \<and> nrows m' = nrows m"
  using classify_Inr [OF assms(1)] assms(2) by auto

lemma distinct_count:
  "distinct ks \<Longrightarrow> length (filter (\<lambda>x. x = k) ks) = (if k \<in> set ks then 1 else 0)"
  by (induction ks) auto


lemma run_logic_scenario_77: "snd (run_logic lib0 dfs77) = Inr master77"
  by code_simp

lemma run_logic_scenario_2: "snd (run_logic lib0 dfs2) = Inr master2"
  by code_simp

text \<open>
  The roster in the master table. Whenever \<^verbatim>\<open>run_logic\<close> returns a master table for a
  finance table whose canonical keys are pairwise distinct (and none of them missing), the
  \<^verbatim>\<open>clean_id\<close> column of the master table is the \<^verbatim>\<open>clean_id\<close> column of the finance
  table, row by row, whatever the three other tables hold: every key of the roster is the
  key of exactly one master record, and no other key is the key of any.
\<close>

lemma roster_keys:
  assumes "snd (run_logic L dfs) = Inr master"
    and "\<not> is_empty (get_df dfs ''finance'')"
    and "col (get_df dfs ''finance'') ''clean_id'' = Inr ks"
    and "distinct ks" and "NaN \<notin> set ks"
  shows "col master ''clean_id'' = Inr ks \<and>
         nrows master = nrows (get_df dfs ''finance'') \<and>
         (\<forall>k. length (filter (\<lambda>x. x = k) ks) = (if k \<in> set ks then 1 else 0))"
proof -
  let ?fin = "get_df dfs ''finance''"
  from assms(3) have h: "has_col ''clean_id'' ?fin" and t: "the_col ?fin ''clean_id'' = ks"
    using col_Inr_has_col by blast+
  from run_logic_Inr' [OF assms(1,2) h] obtain m m' where
    m: "merge_master (set_payoff L ?fin) (get_df dfs ''repairs'')
          (get_df dfs ''odometer'') (get_df dfs ''distance'') = Inr m" and
    f: "formulas m = Inr m'" and c: "classify L m' = Inr master"
    by blast
  from merge_master_Inr [OF m] t
  have 1: "col m ''clean_id'' = Inr (map fillna_cell ks)" and n1: "nrows m = nrows ?fin"
    by (auto simp: the_col_set_payoff)
  from assms(5) have "map fillna_cell ks = ks"
    by (induction ks) (auto simp: fillna_cell_def)
  with 1 have 2: "col m ''clean_id'' = Inr ks"
    by simp
  from formulas_other [OF f, of "''clean_id''"] classify_other [OF c, of "''clean_id''"] 2 n1
  have "col master ''clean_id'' = Inr ks \<and> nrows master = nrows ?fin"
    by simp
  with distinct_count [OF assms(4)] show ?thesis
    by simp
qed

lemma roster_keys_scenario:
  "snd (run_logic lib0 dfs2) = Inr master2 \<and>
   \<not> is_empty (get_df dfs2 ''finance'') \<and>
   col (get_df dfs2 ''finance'') ''clean_id'' = Inr [Str ''77'', Str ''88''] \<and>
   distinct [Str ''77'', Str ''88''] \<and> NaN \<notin> set [Str ''77'', Str ''88''] \<and>
   col master2 ''clean_id'' = Inr [Str ''77'', Str ''88''] \<and>
   nrows master2 = nrows (get_df dfs2 ''finance'')"
proof -
  have b: "\<not> is_empty (get_df dfs2 ''finance'')"
    by (simp add: dfs2_def get_df_def fin2_def is_empty_def)
  have c: "col (get_df dfs2 ''finance'') ''clean_id'' = Inr [Str ''77'', Str ''88'']"
    by (simp add: dfs2_def get_df_def fin2_def col_def)
  have d: "distinct [Str ''77'', Str ''88'']"
    by simp
  have e: "NaN \<notin> set [Str ''77'', Str ''88'']"
    by simp
  from roster_keys [OF run_logic_scenario_2 b c d e] b c d e run_logic_scenario_2
  show ?thesis
    by simp
qed

section \<open>The derived metrics\<close>

lemma add_source_new:
  assumes "add_source df hint reduce out m = Inr m'" and "col m out = Inl e"
    and "col m' out = Inr xs"
  shows "length xs = length (the_col m ''clean_id'')"
  using add_source_cases [OF assms(1)] assms(2,3) by (auto simp: col_merge_left)

lemma add_source_key:
  assumes "add_source df hint reduce out m = Inr m'" and "col m ''clean_id'' = Inr ks"
  shows "the_col m' ''clean_id'' = ks"
  using add_source_col [OF assms] col_Inr_has_col by blast

lemma merge_master_lengths:
  assumes "merge_master fin rep odo dst = Inr m"
    and "k \<in> {''total_repairs'', ''odometer'', ''recent_miles''}"
    and "col m k = Inr xs"
  shows "length xs = length (the_col fin ''clean_id'')"
proof -
  from assms(1) obtain m1 m2 m3 where
    1: "add_source rep ''amount'' sum_group ''total_repairs'' (base_master fin) = Inr m1" and
    2: "add_source odo ''odo'' max_group ''odometer'' m1 = Inr m2" and
    3: "add_source dst ''dist'' sum_group ''recent_miles'' m2 = Inr m3" and
    m: "m = fillna m3"
    by (auto simp: merge_master_def bind_eq_Inr)
  let ?ks = "the_col fin ''clean_id''"
  have k0: "the_col (base_master fin) ''clean_id'' = ?ks"
    using col_base_master_key col_Inr_has_col by blast
  have k1: "the_col m1 ''clean_id'' = ?ks"
    using add_source_key [OF 1 col_base_master_key] .
  have c1: "col m1 ''clean_id'' = Inr ?ks"
    using add_source_col [OF 1 col_base_master_key] .
  have k2: "the_col m2 ''clean_id'' = ?ks"
    using add_source_key [OF 2 c1] .
  from assms(3) m obtain ys where ys: "col m3 k = Inr ys" and xs: "xs = map fillna_cell ys"
    by (auto simp: col_fillna split: sum.splits)
  have b: "col (base_master fin) k = Inl (KeyError k)"
    using assms(2) by (auto simp: col_base_master_none)
  have "length ys = length ?ks"
  proof (cases "k = ''total_repairs''")
    case True
    have "col m2 k = col m1 k" "col m3 k = col m2 k"
      using add_source_other [OF 2, of k] add_source_other [OF 3, of k] True by simp_all
    with ys have "col m1 ''total_repairs'' = Inr ys"
      using True by simp
    from add_source_new [OF 1 _ this] b True k0 show ?thesis
      by simp
  next
    case False
    have e1: "col m1 k = Inl (KeyError k)"
      using add_source_other [OF 1, of k] False b by simp
    show ?thesis
    proof (cases "k = ''odometer''")
      case True
      have "col m3 k = col m2 k"
        using add_source_other [OF 3, of k] True by simp
      with ys True have "col m2 ''odometer'' = Inr ys"
        by simp
      from add_source_new [OF 2 _ this] e1 True k1 show ?thesis
        by simp
    next
      case False
      with \<open>k \<noteq> ''total_repairs''\<close> assms(2) have r: "k = ''recent_miles''"
        by simp
      have "col m2 k = Inl (KeyError k)"
        using add_source_other [OF 2, of k] r e1 by simp
      with add_source_new [OF 3 _ ] ys r k2 show ?thesis
        by simp
    qed
  qed
  with xs show ?thesis
    by simp
qed


lemma master2_not_empty: "master2 \<noteq> empty_df"
  by (simp add: master2_def empty_df_def)

text \<open>
  Claim C4. In every master table that \<^verbatim>\<open>run_logic\<close> returns with records, the
  odometer column holds numbers and the \<^verbatim>\<open>est_resale\<close> of each record is
  \<^verbatim>\<open>max(10000, 65000 - odometer * 0.05)\<close> of the same record; so it is at least 10000.
\<close>

theorem est_resale_formula:
  assumes "snd (run_logic L dfs) = Inr master" and "master \<noteq> empty_df"
  shows "\<exists>qs rs. col master ''odometer'' = Inr (map Num qs) \<and>
           col master ''est_resale'' = Inr (map Num rs) \<and>
           rs = map (\<lambda>q. max 10000 (65000 - q * (5 / 100))) qs \<and>
           (\<forall>r\<in>set rs. 10000 \<le> r)"
proof -
  from run_logic_Inr [OF assms] obtain m m' where
    m: "merge_master (set_payoff L (get_df dfs ''finance'')) (get_df dfs ''repairs'')
          (get_df dfs ''odometer'') (get_df dfs ''distance'') = Inr m" and
    f: "formulas m = Inr m'" and c: "classify L m' = Inr master"
    by blast
  from merge_master_Inr [OF m] obtain m3 where m3: "m = fillna m3"
    by blast
  from formulas_Inr [OF f] obtain odo odo_f where
    odo: "col m ''odometer'' = Inr odo" and odo_f: "floats odo = Inr odo_f" and
    res: "col m' ''est_resale'' =
            Inr (map of_float (map (clip_lower 10000)
                   (map (\<lambda>x. fsub (Some 65000) (fmul x (Some (5 / 100)))) odo_f)))"
    by auto
  from odo m3 have "NaN \<notin> set odo"
    using col_fillna_no_NaN by blast
  from floats_no_NaN [OF odo_f this] obtain qs where
    qs: "odo = map Num qs" "odo_f = map Some qs"
    by blast
  let ?rs = "map (\<lambda>q. max 10000 (65000 - q * (5 / 100))) qs"
  have 1: "col master ''odometer'' = Inr (map Num qs)"
    using formulas_other [OF f, of "''odometer''"] classify_other [OF c, of "''odometer''"] odo qs
    by simp
  have 2: "col master ''est_resale'' = Inr (map Num ?rs)"
    using classify_other [OF c, of "''est_resale''"] res qs
    by (simp add: clip_lower_def fsub_def fmul_def comp_def)
  have 3: "\<forall>r\<in>set ?rs. 10000 \<le> r"
    by auto
  from 1 2 3 show ?thesis
    by blast
qed

theorem est_resale_formula_witness:
  "snd (run_logic lib0 dfs2) = Inr master2 \<and> master2 \<noteq> empty_df \<and>
   (\<exists>qs rs. col master2 ''odometer'' = Inr (map Num qs) \<and>
      col master2 ''est_resale'' = Inr (map Num rs) \<and>
      rs = map (\<lambda>q. max 10000 (65000 - q * (5 / 100))) qs \<and>
      (\<forall>r\<in>set rs. 10000 \<le> r))"
  using est_resale_formula [OF run_logic_scenario_2 master2_not_empty]
    run_logic_scenario_2 master2_not_empty
  by blast

lemma sequence_Inl: "sequence xs = Inl e \<Longrightarrow> Inl e \<in> set xs"
  by (induction xs) (auto simp: bind_eq_Inl)

lemma sum_group_Inl: "sum_group vs = Inl e \<Longrightarrow> e = TypeError"
  by (auto simp: sum_group_def bind_eq_Inl dest: floats_Inl)

lemma max_group_Inl: "max_group vs = Inl e \<Longrightarrow> e = TypeError"
proof -
  assume a: "max_group vs = Inl e"
  show ?thesis
  proof (cases "floats vs")
    case (Inl e')
    with a floats_Inl show ?thesis
      by (auto simp: max_group_def)
  next
    case (Inr fs)
    with a show ?thesis
      by (cases "present fs") (simp_all add: max_group_def)
  qed
qed

lemma groupby_Inl:
  assumes "groupby ks vs reduce = Inl e" and "\<And>g e'. reduce g = Inl e' \<Longrightarrow> e' = TypeError"
  shows "e = TypeError"
proof -
  from sequence_Inl [OF assms(1) [unfolded groupby_def]]
  obtain k where "bind (reduce (group_values k ks vs)) (\<lambda>v. Inr (k, v)) = Inl e"
    by auto
  then have "reduce (group_values k ks vs) = Inl e"
    by (auto simp: bind_eq_Inl)
  then show ?thesis
    by (rule assms(2))
qed

lemma add_source_Inl:
  assumes "add_source df hint reduce out m = Inl e"
    and "\<And>g e'. reduce g = Inl e' \<Longrightarrow> e' = TypeError"
  shows "e = TypeError"
  using assms(1) groupby_Inl [OF _ assms(2)]
  by (auto simp: add_source_def Let_def bind_eq_Inl split: if_splits)

lemma merge_master_Inl: "merge_master fin rep odo dst = Inl e \<Longrightarrow> e = TypeError"
  by (auto simp: merge_master_def bind_eq_Inl
      dest: add_source_Inl [OF _ sum_group_Inl] add_source_Inl [OF _ max_group_Inl])

lemma floats_set:
  "floats xs = Inr fs \<Longrightarrow> f \<in> set fs \<Longrightarrow> \<exists>x\<in>set xs. to_float x = Inr f"
  by (induction xs arbitrary: fs) (auto simp: floats_def bind_eq_Inr)

lemma replace_0_1_not_0: "to_float (replace_0_1 x) \<noteq> Inr (Some 0)"
  by (cases x) (auto simp: replace_0_1_def)

lemma floats_replace_no_0: "floats (map replace_0_1 rm) = Inr rm_f \<Longrightarrow> Some 0 \<notin> set rm_f"
  using floats_set replace_0_1_not_0 by fastforce

lemma fdiv_Inl: "fdiv a b = Inl e \<Longrightarrow> b = Some 0 \<and> e = ZeroDivisionError"
  by (auto simp: fdiv_def split: option.splits if_splits)

lemma divide_no_error:
  assumes "Some 0 \<notin> set rm_f"
  shows "sequence (map (\<lambda>tm. fdiv (fst tm) (snd tm)) (zip tr_f rm_f)) \<noteq> Inl e"
proof
  assume "sequence (map (\<lambda>tm. fdiv (fst tm) (snd tm)) (zip tr_f rm_f)) = Inl e"
  from sequence_Inl [OF this] obtain t r where "(t, r) \<in> set (zip tr_f rm_f)" "fdiv t r = Inl e"
    by auto
  with fdiv_Inl have "Some 0 \<in> set rm_f"
    by (metis set_zip_rightD)
  with assms show False
    by simp
qed

lemma formulas_Inl: "formulas m = Inl e \<Longrightarrow> e \<noteq> ZeroDivisionError"
  by (auto simp: formulas_def Let_def bind_eq_Inl
      dest: col_Inl floats_Inl divide_no_error [OF floats_replace_no_0, THEN notE])

lemma classify_Inl: "classify L m = Inl e \<Longrightarrow> e \<noteq> ZeroDivisionError"
  by (auto simp: classify_def Let_def bind_eq_Inl dest: col_Inl floats_Inl)

lemma run_logic_no_zero_division: "snd (run_logic L dfs) \<noteq> Inl ZeroDivisionError"
  by (auto simp: run_logic_def Let_def bind_eq_Inl
      dest: merge_master_Inl formulas_Inl classify_Inl)

lemma divide_nums:
  "0 \<notin> set ds \<Longrightarrow>
   sequence (map (\<lambda>tm. fdiv (fst tm) (snd tm)) (zip (map Some ts) (map Some ds))) =
     Inr (map (\<lambda>td. Some (fst td / snd td)) (zip ts ds))"
proof (induction ts arbitrary: ds)
  case Nil
  then show ?case by simp
next
  case (Cons t ts)
  then show ?case
    by (cases ds) (auto simp: fdiv_def)
qed

lemma floats_replace_nums:
  "floats (map replace_0_1 xs) = Inr fs \<Longrightarrow> NaN \<notin> set xs \<Longrightarrow>
   \<exists>rs. xs = map Num rs \<and> fs = map (\<lambda>r. Some (if r = 0 then 1 else r)) rs"
proof (induction xs arbitrary: fs)
  case Nil
  then show ?case by (simp add: floats_def)
next
  case (Cons x xs)
  from Cons.prems obtain f fs' where
    f: "to_float (replace_0_1 x) = Inr f" and fs': "floats (map replace_0_1 xs) = Inr fs'" and
    fs: "fs = f # fs'"
    by (auto simp: floats_def bind_eq_Inr)
  from Cons.prems f obtain r where r: "x = Num r" "f = Some (if r = 0 then 1 else r)"
    by (cases x) (auto simp: replace_0_1_def split: if_splits)
  from Cons.IH [OF fs'] Cons.prems obtain rs where
    "xs = map Num rs" "fs' = map (\<lambda>r. Some (if r = 0 then 1 else r)) rs"
    by auto
  with r fs have "x # xs = map Num (r # rs) \<and>
      fs = map (\<lambda>r. Some (if r = 0 then 1 else r)) (r # rs)"
    by simp
  then show ?case by (rule exI [of _ "r # rs"])
qed


text \<open>
  Claim C5. No call of \<^verbatim>\<open>run_logic\<close> ends in a division by zero. In every master table
  that it returns with records, \<^verbatim>\<open>total_repairs\<close> and \<^verbatim>\<open>recent_miles\<close> hold one
  number for each record, and the \<^verbatim>\<open>cpm\<close> of a record is its \<^verbatim>\<open>total_repairs\<close>
  divided by its \<^verbatim>\<open>recent_miles\<close>, with 1 in the place of a \<^verbatim>\<open>recent_miles\<close> of 0;
  so a record whose \<^verbatim>\<open>recent_miles\<close> is 0 has its \<^verbatim>\<open>total_repairs\<close> as \<^verbatim>\<open>cpm\<close>.
\<close>

theorem cpm_formula:
  "snd (run_logic L dfs) \<noteq> Inl ZeroDivisionError \<and>
   (snd (run_logic L dfs) = Inr master \<and> master \<noteq> empty_df \<longrightarrow>
    (\<exists>ts rs. length ts = length rs \<and>
       col master ''total_repairs'' = Inr (map Num ts) \<and>
       col master ''recent_miles'' = Inr (map Num rs) \<and>
       col master ''cpm'' =
         Inr (map (\<lambda>tr. Num (fst tr / (if snd tr = 0 then 1 else snd tr))) (zip ts rs)) \<and>
       (\<forall>i<length rs. rs ! i = 0 \<longrightarrow> the_col master ''cpm'' ! i = Num (ts ! i))))"
proof (intro conjI impI)
  show "snd (run_logic L dfs) \<noteq> Inl ZeroDivisionError"
    by (rule run_logic_no_zero_division)
next
  assume a: "snd (run_logic L dfs) = Inr master \<and> master \<noteq> empty_df"
  let ?fin = "set_payoff L (get_df dfs ''finance'')"
  from a run_logic_Inr [of L dfs master] obtain m m' where
    m: "merge_master ?fin (get_df dfs ''repairs'')
          (get_df dfs ''odometer'') (get_df dfs ''distance'') = Inr m" and
    f: "formulas m = Inr m'" and c: "classify L m' = Inr master"
    by blast
  from merge_master_Inr [OF m] obtain m3 where m3: "m = fillna m3"
    by blast
  from formulas_Inr [OF f] obtain tr rm tr_f rm_f cpm_f where
    tr: "col m ''total_repairs'' = Inr tr" and tr_f: "floats tr = Inr tr_f" and
    rm: "col m ''recent_miles'' = Inr rm" and rm_f: "floats (map replace_0_1 rm) = Inr rm_f" and
    q: "sequence (map (\<lambda>tm. fdiv (fst tm) (snd tm)) (zip tr_f rm_f)) = Inr cpm_f" and
    cp: "col m' ''cpm'' = Inr (map of_float cpm_f)"
    by auto
  from tr rm m3 have n: "NaN \<notin> set tr" "NaN \<notin> set rm"
    using col_fillna_no_NaN by blast+
  from floats_no_NaN [OF tr_f n(1)] obtain ts where ts: "tr = map Num ts" "tr_f = map Some ts"
    by blast
  from floats_replace_nums [OF rm_f n(2)] obtain rs where
    rs: "rm = map Num rs" "rm_f = map (\<lambda>r. Some (if r = 0 then 1 else r)) rs"
    by blast
  have len: "length ts = length rs"
    using merge_master_lengths [OF m _ tr] merge_master_lengths [OF m _ rm] ts rs by simp
  let ?ds = "map (\<lambda>r. if r = 0 then 1 else r) rs"
  have rmf: "rm_f = map Some ?ds"
    using rs by simp
  have nz: "0 \<notin> set ?ds"
    by auto
  have "sequence (map (\<lambda>tm. fdiv (fst tm) (snd tm)) (zip tr_f rm_f)) =
      Inr (map (\<lambda>td. Some (fst td / snd td)) (zip ts ?ds))"
    unfolding ts(2) rmf by (rule divide_nums [OF nz])
  with q have "cpm_f = map (\<lambda>td. Some (fst td / snd td)) (zip ts ?ds)"
    by simp
  then have cf: "map of_float cpm_f =
      map (\<lambda>tr. Num (fst tr / (if snd tr = 0 then 1 else snd tr))) (zip ts rs)"
    by (simp add: zip_map2 comp_def case_prod_unfold)
  have 1: "col master ''total_repairs'' = Inr (map Num ts)"
    using formulas_other [OF f, of "''total_repairs''"]
      classify_other [OF c, of "''total_repairs''"] tr ts by simp
  have 2: "col master ''recent_miles'' = Inr (map Num rs)"
    using formulas_other [OF f, of "''recent_miles''"]
      classify_other [OF c, of "''recent_miles''"] rm rs by simp
  have 3: "col master ''cpm'' =
      Inr (map (\<lambda>tr. Num (fst tr / (if snd tr = 0 then 1 else snd tr))) (zip ts rs))"
    using classify_other [OF c, of "''cpm''"] cp cf by simp
  have 4: "\<forall>i<length rs. rs ! i = 0 \<longrightarrow> the_col master ''cpm'' ! i = Num (ts ! i)"
    using col_Inr_has_col [OF 3] len by simp
  from len 1 2 3 4 show "\<exists>ts rs. length ts = length rs \<and>
       col master ''total_repairs'' = Inr (map Num ts) \<and>
       col master ''recent_miles'' = Inr (map Num rs) \<and>
       col master ''cpm'' =
         Inr (map (\<lambda>tr. Num (fst tr / (if snd tr = 0 then 1 else snd tr))) (zip ts rs)) \<and>
       (\<forall>i<length rs. rs ! i = 0 \<longrightarrow> the_col master ''cpm'' ! i = Num (ts ! i))"
    by (intro exI [of _ ts] exI [of _ rs] conjI)
qed

theorem cpm_formula_witness:
  "snd (run_logic lib0 dfs2) = Inr master2 \<and> master2 \<noteq> empty_df \<and>
   snd (run_logic lib0 dfs2) \<noteq> Inl ZeroDivisionError \<and>
   (\<exists>ts rs. length ts = length rs \<and>
       col master2 ''total_repairs'' = Inr (map Num ts) \<and>
       col master2 ''recent_miles'' = Inr (map Num rs) \<and>
       col master2 ''cpm'' =
         Inr (map (\<lambda>tr. Num (fst tr / (if snd tr = 0 then 1 else snd tr))) (zip ts rs)) \<and>
       (\<forall>i<length rs. rs ! i = 0 \<longrightarrow> the_col master2 ''cpm'' ! i = Num (ts ! i)))"
  using cpm_formula [of lib0 dfs2 master2] run_logic_scenario_2 master2_not_empty
  by blast

section \<open>Sources that cannot be used\<close>

lemma add_source_unresolvable:
  "\<not> resolvable df hint \<Longrightarrow> add_source df hint reduce out m = Inr m"
  by (auto simp: resolvable_def add_source_def Let_def)

lemma merge_master_missing:
  assumes "merge_master fin rep odo dst = Inr m"
  shows "(\<not> resolvable rep ''amount'' \<longrightarrow> col m ''total_repairs'' = Inl (KeyError ''total_repairs'')) \<and>
         (\<not> resolvable odo ''odo'' \<longrightarrow> col m ''odometer'' = Inl (KeyError ''odometer'')) \<and>
         (\<not> resolvable dst ''dist'' \<longrightarrow> col m ''recent_miles'' = Inl (KeyError ''recent_miles''))"
proof -
  from assms obtain m1 m2 m3 where
    1: "add_source rep ''amount'' sum_group ''total_repairs'' (base_master fin) = Inr m1" and
    2: "add_source odo ''odo'' max_group ''odometer'' m1 = Inr m2" and
    3: "add_source dst ''dist'' sum_group ''recent_miles'' m2 = Inr m3" and
    m: "m = fillna m3"
    by (auto simp: merge_master_def bind_eq_Inr)
  have b: "col (base_master fin) ''total_repairs'' = Inl (KeyError ''total_repairs'')"
    "col (base_master fin) ''odometer'' = Inl (KeyError ''odometer'')"
    "col (base_master fin) ''recent_miles'' = Inl (KeyError ''recent_miles'')"
    by (simp_all add: col_base_master_none)
  have r: "col m3 ''total_repairs'' = Inl (KeyError ''total_repairs'')"
    if "\<not> resolvable rep ''amount''"
    using add_source_unresolvable [OF that] 1 b(1)
      add_source_other [OF 2, of "''total_repairs''"] add_source_other [OF 3, of "''total_repairs''"]
    by simp
  have o: "col m3 ''odometer'' = Inl (KeyError ''odometer'')"
    if "\<not> resolvable odo ''odo''"
    using add_source_unresolvable [OF that] 2 b(2)
      add_source_other [OF 1, of "''odometer''"] add_source_other [OF 3, of "''odometer''"]
    by simp
  have d: "col m3 ''recent_miles'' = Inl (KeyError ''recent_miles'')"
    if "\<not> resolvable dst ''dist''"
    using add_source_unresolvable [OF that] 3 b(3)
      add_source_other [OF 1, of "''recent_miles''"] add_source_other [OF 2, of "''recent_miles''"]
    by simp
  from r o d m show ?thesis
    by (simp add: col_fillna)
qed


text \<open>
  Claim C1 is not what the code does. With a finance table that is not empty and has a
  \<^verbatim>\<open>clean_id\<close> column, if one of the three other sources is empty, has no
  \<^verbatim>\<open>clean_id\<close> column or has no value column, its block is skipped, the master table
  never gets the column \<^verbatim>\<open>total_repairs\<close>, \<^verbatim>\<open>odometer\<close> or \<^verbatim>\<open>recent_miles\<close>, and
  the formulas (lines 138 and 145) raise: \<^verbatim>\<open>run_logic\<close> returns no master table at all.
  The witness is the finance table of the scenario with the three other files absent,
  where the exception is KeyError \<^verbatim>\<open>odometer\<close>.
\<close>

theorem run_logic_raises_unresolved:
  assumes "\<not> is_empty (get_df dfs ''finance'')" and "has_col ''clean_id'' (get_df dfs ''finance'')"
    and "\<not> resolvable (get_df dfs ''repairs'') ''amount'' \<or>
         \<not> resolvable (get_df dfs ''odometer'') ''odo'' \<or>
         \<not> resolvable (get_df dfs ''distance'') ''dist''"
  shows "\<exists>e. snd (run_logic L dfs) = Inl e"
proof (cases "snd (run_logic L dfs)")
  case (Inl e)
  then show ?thesis by blast
next
  case (Inr master)
  from run_logic_Inr' [OF Inr assms(1,2)] obtain m m' where
    m: "merge_master (set_payoff L (get_df dfs ''finance'')) (get_df dfs ''repairs'')
          (get_df dfs ''odometer'') (get_df dfs ''distance'') = Inr m" and
    f: "formulas m = Inr m'"
    by blast
  from formulas_Inr [OF f] obtain odo tr rm where
    "col m ''odometer'' = Inr odo" "col m ''total_repairs'' = Inr tr"
    "col m ''recent_miles'' = Inr rm"
    by blast
  with merge_master_missing [OF m] assms(3) show ?thesis
    by auto
qed

theorem run_logic_raises_unresolved_witness:
  "\<not> is_empty (get_df dfs_fin_only ''finance'') \<and>
   has_col ''clean_id'' (get_df dfs_fin_only ''finance'') \<and>
   \<not> resolvable (get_df dfs_fin_only ''odometer'') ''odo'' \<and>
   (\<exists>e. snd (run_logic lib0 dfs_fin_only) = Inl e) \<and>
   snd (run_logic lib0 dfs_fin_only) = Inl (KeyError ''odometer'')"
proof -
  have a: "\<not> is_empty (get_df dfs_fin_only ''finance'')"
    by (simp add: dfs_fin_only_def get_df_def fin77_def is_empty_def)
  have b: "has_col ''clean_id'' (get_df dfs_fin_only ''finance'')"
    by (simp add: dfs_fin_only_def get_df_def fin77_def has_col_def columns_def)
  have c: "\<not> resolvable (get_df dfs_fin_only ''odometer'') ''odo''"
    by (simp add: dfs_fin_only_def get_df_def resolvable_def is_empty_def empty_df_def)
  have d: "snd (run_logic lib0 dfs_fin_only) = Inl (KeyError ''odometer'')"
    by code_simp
  from run_logic_raises_unresolved [OF a b, of lib0] a b c d show ?thesis
    by blast
qed

section \<open>When the engine returns\<close>

lemma sequence_Inr:
  "(\<And>x. x \<in> set xs \<Longrightarrow> \<exists>v. x = Inr v) \<Longrightarrow> \<exists>vs. sequence xs = Inr vs \<and> length vs = length xs"
proof (induction xs)
  case Nil
  then show ?case by simp
next
  case (Cons x xs)
  then obtain v vs where "x = Inr v" "sequence xs = Inr vs" "length vs = length xs"
    by (metis list.set_intros(1,2))
  then show ?case by simp
qed

lemma sequence_set:
  "sequence xs = Inr vs \<Longrightarrow> v \<in> set vs \<Longrightarrow> Inr v \<in> set xs"
  by (induction xs arbitrary: vs) (auto simp: bind_eq_Inr)

lemma to_float_no_text: "\<not> is_text x \<Longrightarrow> \<exists>f. to_float x = Inr f"
  by (cases x) (simp_all add: is_text_def)

lemma floats_no_text: "(\<And>x. x \<in> set xs \<Longrightarrow> \<not> is_text x) \<Longrightarrow> \<exists>fs. floats xs = Inr fs"
  unfolding floats_def using sequence_Inr [of "map to_float xs"] to_float_no_text by fastforce

lemma group_values_subset: "set (group_values k ks vs) \<subseteq> set vs"
  by (auto simp: group_values_def dest: set_zip_rightD)

lemma sum_group_total:
  "(\<And>x. x \<in> set vs \<Longrightarrow> \<not> is_text x) \<Longrightarrow> \<exists>q. sum_group vs = Inr (Num q)"
  using floats_no_text [of vs] by (auto simp: sum_group_def)

lemma max_group_total:
  "(\<And>x. x \<in> set vs \<Longrightarrow> \<not> is_text x) \<Longrightarrow> \<exists>v. max_group vs = Inr v \<and> \<not> is_text v"
  using floats_no_text [of vs] by (auto simp: max_group_def is_text_def split: list.splits)

lemma sum_group_no_text: "sum_group vs = Inr v \<Longrightarrow> \<not> is_text v"
  by (auto simp: sum_group_def bind_eq_Inr is_text_def)

lemma max_group_no_text: "max_group vs = Inr v \<Longrightarrow> \<not> is_text v"
proof -
  assume "max_group vs = Inr v"
  then obtain fs where v: "(case present fs of [] \<Rightarrow> (Inr NaN :: error + cell) | q # qs \<Rightarrow> Inr (Num (fold max qs q))) = Inr v"
    by (auto simp: max_group_def bind_eq_Inr)
  then show ?thesis
    by (cases "present fs") (auto simp: is_text_def)
qed

lemma groupby_total:
  assumes "\<And>g. set g \<subseteq> set vs \<Longrightarrow> \<exists>v. reduce g = Inr v"
  shows "\<exists>stats. groupby ks vs reduce = Inr stats"
proof -
  have "\<exists>v. x = Inr v"
    if "x \<in> set (map (\<lambda>k. bind (reduce (group_values k ks vs)) (\<lambda>v. Inr (k, v)))
                   (remdups (filter (\<lambda>k. k \<noteq> NaN) ks)))" for x
  proof -
    from that obtain k where x: "x = bind (reduce (group_values k ks vs)) (\<lambda>v. Inr (k, v))"
      by auto
    from assms [OF group_values_subset] obtain v where "reduce (group_values k ks vs) = Inr v"
      by blast
    with x show ?thesis by simp
  qed
  from sequence_Inr [OF this] show ?thesis
    unfolding groupby_def by blast
qed

lemma groupby_values:
  assumes "groupby ks vs reduce = Inr stats" and "map_of stats k = Some v"
  shows "\<exists>g. reduce g = Inr v"
proof -
  from assms(2) have "(k, v) \<in> set stats"
    by (rule map_of_SomeD)
  from sequence_set [OF assms(1) [unfolded groupby_def] this]
  obtain k' where "Inr (k, v) = bind (reduce (group_values k' ks vs)) (\<lambda>v. Inr (k', v))"
    by auto
  then have "bind (reduce (group_values k' ks vs)) (\<lambda>v. Inr (k', v)) = Inr (k, v)"
    by simp
  then show ?thesis
    by (auto simp: bind_eq_Inr)
qed

lemma add_source_resolvable:
  assumes "resolvable df hint" and "numeric_values df hint"
    and total: "\<forall>g. (\<forall>x\<in>set g. \<not> is_text x) \<longrightarrow> (\<exists>v. reduce g = Inr v)"
    and novalue: "\<forall>g v. reduce g = Inr v \<longrightarrow> \<not> is_text v"
    and new: "col m out = Inl e"
  shows "\<exists>m' xs. add_source df hint reduce out m = Inr m' \<and> col m' out = Inr xs \<and>
           (\<forall>x\<in>set xs. \<not> is_text x)"
proof -
  let ?find = "find_col (\<lambda>c. str_contains hint (lower c)) df"
  from assms(1) obtain c where c: "?find = Some c" and t: "truthy ?find"
    by (auto simp: resolvable_def truthy_def split: option.splits)
  from assms(2) c have nt: "\<And>x. x \<in> set (the_col df c) \<Longrightarrow> \<not> is_text x"
    by (simp add: numeric_values_def list_all_iff)
  have "\<exists>v. reduce g = Inr v" if "set g \<subseteq> set (the_col df c)" for g
    using total nt that by blast
  from groupby_total [of "the_col df c" reduce "the_col df ''clean_id''", OF this]
  obtain stats where stats: "groupby (the_col df ''clean_id'') (the_col df c) reduce = Inr stats"
    by blast
  let ?xs = "map (\<lambda>k. case map_of stats k of None \<Rightarrow> NaN | Some v \<Rightarrow> v) (the_col m ''clean_id'')"
  have 1: "add_source df hint reduce out m = Inr (merge_left m stats out)"
    using assms(1) c t stats by (simp add: add_source_def resolvable_def Let_def)
  have 2: "col (merge_left m stats out) out = Inr ?xs"
    using new by (simp add: col_merge_left)
  have 3: "\<forall>x\<in>set ?xs. \<not> is_text x"
  proof
    fix x assume "x \<in> set ?xs"
    then obtain k where x: "x = (case map_of stats k of None \<Rightarrow> NaN | Some v \<Rightarrow> v)"
      by auto
    show "\<not> is_text x"
    proof (cases "map_of stats k")
      case None
      with x show ?thesis by (simp add: is_text_def)
    next
      case (Some v)
      from groupby_values [OF stats Some] novalue x Some show ?thesis
        by auto
    qed
  qed
  from 1 2 3 show ?thesis
    by blast
qed

lemma fillna_nums: "(\<And>x. x \<in> set xs \<Longrightarrow> \<not> is_text x) \<Longrightarrow> \<exists>qs. map fillna_cell xs = map Num qs"
proof (induction xs)
  case Nil
  then show ?case by simp
next
  case (Cons x xs)
  then obtain qs where qs: "map fillna_cell xs = map Num qs"
    by auto
  from Cons.prems [of x] obtain q where "fillna_cell x = Num q"
    by (cases x) (auto simp: fillna_cell_def is_text_def)
  with qs have "map fillna_cell (x # xs) = map Num (q # qs)"
    by simp
  then show ?case by (rule exI [of _ "q # qs"])
qed

lemma payoff_no_text:
  "x \<in> set (the_col (set_payoff L t) ''payoff_balance'') \<Longrightarrow> \<not> is_text x"
  by (auto simp: set_payoff_def Let_def payoff_cell_def fmul_def is_text_def split: if_splits)

lemma merge_master_total:
  assumes "resolvable rep ''amount''" and "numeric_values rep ''amount''"
    and "resolvable odo ''odo''" and "numeric_values odo ''odo''"
    and "resolvable dst ''dist''" and "numeric_values dst ''dist''"
  shows "\<exists>m ts os rs. merge_master fin rep odo dst = Inr m \<and>
           col m ''total_repairs'' = Inr (map Num ts) \<and>
           col m ''odometer'' = Inr (map Num os) \<and>
           col m ''recent_miles'' = Inr (map Num rs)"
proof -
  have st: "\<forall>g. (\<forall>x\<in>set g. \<not> is_text x) \<longrightarrow> (\<exists>v. sum_group g = Inr v)"
    using sum_group_total by blast
  have mt: "\<forall>g. (\<forall>x\<in>set g. \<not> is_text x) \<longrightarrow> (\<exists>v. max_group g = Inr v)"
    using max_group_total by blast
  have sv: "\<forall>g v. sum_group g = Inr v \<longrightarrow> \<not> is_text v"
    using sum_group_no_text by blast
  have mv: "\<forall>g v. max_group g = Inr v \<longrightarrow> \<not> is_text v"
    using max_group_no_text by blast
  have b: "col (base_master fin) ''total_repairs'' = Inl (KeyError ''total_repairs'')"
    "col (base_master fin) ''odometer'' = Inl (KeyError ''odometer'')"
    "col (base_master fin) ''recent_miles'' = Inl (KeyError ''recent_miles'')"
    by (simp_all add: col_base_master_none)
  from add_source_resolvable [OF assms(1,2) st sv b(1)]
  obtain m1 xs1 where
    1: "add_source rep ''amount'' sum_group ''total_repairs'' (base_master fin) = Inr m1" and
    x1: "col m1 ''total_repairs'' = Inr xs1" "\<forall>x\<in>set xs1. \<not> is_text x"
    by blast
  have "col m1 ''odometer'' = Inl (KeyError ''odometer'')"
    using add_source_other [OF 1, of "''odometer''"] b(2) by simp
  from add_source_resolvable [OF assms(3,4) mt mv this]
  obtain m2 xs2 where
    2: "add_source odo ''odo'' max_group ''odometer'' m1 = Inr m2" and
    x2: "col m2 ''odometer'' = Inr xs2" "\<forall>x\<in>set xs2. \<not> is_text x"
    by blast
  have "col m2 ''recent_miles'' = Inl (KeyError ''recent_miles'')"
    using add_source_other [OF 1, of "''recent_miles''"]
      add_source_other [OF 2, of "''recent_miles''"] b(3) by simp
  from add_source_resolvable [OF assms(5,6) st sv this]
  obtain m3 xs3 where
    3: "add_source dst ''dist'' sum_group ''recent_miles'' m2 = Inr m3" and
    x3: "col m3 ''recent_miles'' = Inr xs3" "\<forall>x\<in>set xs3. \<not> is_text x"
    by blast
  have c1: "col m3 ''total_repairs'' = Inr xs1"
    using add_source_col [OF 3 add_source_col [OF 2 x1(1)]] .
  have c2: "col m3 ''odometer'' = Inr xs2"
    using add_source_col [OF 3 x2(1)] .
  from fillna_nums [of xs1] x1(2) obtain ts where ts: "map fillna_cell xs1 = map Num ts"
    by blast
  from fillna_nums [of xs2] x2(2) obtain os where os: "map fillna_cell xs2 = map Num os"
    by blast
  from fillna_nums [of xs3] x3(2) obtain rs where rs: "map fillna_cell xs3 = map Num rs"
    by blast
  have "merge_master fin rep odo dst = Inr (fillna m3)"
    using 1 2 3 by (simp add: merge_master_def)
  moreover have "col (fillna m3) ''total_repairs'' = Inr (map Num ts)"
    "col (fillna m3) ''odometer'' = Inr (map Num os)"
    "col (fillna m3) ''recent_miles'' = Inr (map Num rs)"
    using c1 c2 x3(1) ts os rs by (simp_all add: col_fillna)
  ultimately show ?thesis
    by blast
qed

lemma floats_nums: "floats (map Num qs) = Inr (map Some qs)"
  using floats_of_float [of "map Some qs"] by (simp add: comp_def del: floats_of_float)

lemma replace_nums:
  "map replace_0_1 (map Num rs) = map Num (map (\<lambda>r. if r = 0 then 1 else r) rs)"
  by (simp add: replace_0_1_def)

lemma formulas_total:
  assumes "col m ''odometer'' = Inr (map Num os)"
    and "col m ''payoff_balance'' = Inr (map Num ps)"
    and "col m ''total_repairs'' = Inr (map Num ts)"
    and "col m ''recent_miles'' = Inr (map Num rs)"
  shows "\<exists>m'. formulas m = Inr m'"
proof -
  let ?ds = "map (\<lambda>r. if r = 0 then 1 else r) rs"
  have nz: "0 \<notin> set ?ds"
    by auto
  have r: "floats (map replace_0_1 (map Num rs)) = Inr (map Some ?ds)"
    unfolding replace_nums by (rule floats_nums)
  have d: "sequence (map (\<lambda>tm. fdiv (fst tm) (snd tm)) (zip (map Some ts) (map Some ?ds))) =
      Inr (map (\<lambda>td. Some (fst td / snd td)) (zip ts ?ds))"
    by (rule divide_nums [OF nz])
  show ?thesis
    unfolding formulas_def Let_def
    by (simp add: assms floats_nums r d del: map_map)
qed

lemma set_col_not_empty_df: "set_col c xs t \<noteq> empty_df"
proof
  assume "set_col c xs t = empty_df"
  then have "cols (set_col c xs t) = []"
    by (simp add: empty_df_def)
  then show False
    by (cases "cols t") (auto simp: set_col_def split: if_splits)
qed

lemma classify_total:
  assumes "formulas m = Inr m'" and "col m ''odometer'' = Inr (map Num os)"
    and "col m ''recent_miles'' = Inr (map Num rs)"
  shows "\<exists>master. classify L m' = Inr master \<and> master \<noteq> empty_df"
proof -
  from formulas_Inr [OF assms(1)] obtain cpm_f ne_f es_f where
    m': "m' = set_floats ''cpm'' cpm_f
              (set_floats ''net_equity'' ne_f (set_floats ''est_resale'' es_f m))"
    by blast
  show ?thesis
    unfolding classify_def Let_def m'
    by (simp add: assms(2,3) floats_nums set_col_not_empty_df del: map_map)
qed


text \<open>
  With a finance table that is not empty and has a \<^verbatim>\<open>clean_id\<close> column, and three
  other sources that are usable and numeric, \<^verbatim>\<open>run_logic\<close> returns a master table.
\<close>

lemma run_logic_returns:
  assumes "\<not> is_empty (get_df dfs ''finance'')" and "has_col ''clean_id'' (get_df dfs ''finance'')"
    and "resolvable (get_df dfs ''repairs'') ''amount''"
    and "numeric_values (get_df dfs ''repairs'') ''amount''"
    and "resolvable (get_df dfs ''odometer'') ''odo''"
    and "numeric_values (get_df dfs ''odometer'') ''odo''"
    and "resolvable (get_df dfs ''distance'') ''dist''"
    and "numeric_values (get_df dfs ''distance'') ''dist''"
  shows "\<exists>master. snd (run_logic L dfs) = Inr master \<and> master \<noteq> empty_df"
proof -
  let ?fin = "set_payoff L (get_df dfs ''finance'')"
  from merge_master_total [OF assms(3-8), of ?fin] obtain m ts os rs where
    m: "merge_master ?fin (get_df dfs ''repairs'') (get_df dfs ''odometer'')
          (get_df dfs ''distance'') = Inr m" and
    c: "col m ''total_repairs'' = Inr (map Num ts)" "col m ''odometer'' = Inr (map Num os)"
       "col m ''recent_miles'' = Inr (map Num rs)"
    by blast
  from merge_master_Inr [OF m]
  have "col m ''payoff_balance'' = Inr (map fillna_cell (the_col ?fin ''payoff_balance''))"
    by blast
  moreover from fillna_nums [of "the_col ?fin ''payoff_balance''"] payoff_no_text
  obtain ps where "map fillna_cell (the_col ?fin ''payoff_balance'') = map Num ps"
    by blast
  ultimately have p: "col m ''payoff_balance'' = Inr (map Num ps)"
    by simp
  from formulas_total [OF c(2) p c(1) c(3)] obtain m' where f: "formulas m = Inr m'"
    by blast
  from classify_total [OF f c(2) c(3), of L] obtain master where
    "classify L m' = Inr master" "master \<noteq> empty_df"
    by blast
  with m f assms(1,2) show ?thesis
    by (simp add: run_logic_def Let_def)
qed

text \<open>
  Claim C2 is not what the code does on every input. Where \<^verbatim>\<open>run_logic\<close> returns a
  master table, the roster is complete and without duplicates (\<open>roster_keys\<close>), and it
  returns one whenever the three other sources are usable (\<open>run_logic_returns\<close>). But a
  vehicle of the roster gets no master record at all when one of the sources is absent or
  empty, so that the vehicle has no matching row there: the finance table of the scenario
  has the one key 77, the three other files are absent, and \<^verbatim>\<open>run_logic\<close> returns no
  master table (it raises KeyError at line 138, the defect of claim C1).
\<close>

theorem roster_without_records:
  "\<not> is_empty (get_df dfs_fin_only ''finance'') \<and>
   col (get_df dfs_fin_only ''finance'') ''clean_id'' = Inr [Str ''77''] \<and>
   distinct [Str ''77''] \<and>
   (\<forall>master. snd (run_logic lib0 dfs_fin_only) \<noteq> Inr master)"
proof -
  have "snd (run_logic lib0 dfs_fin_only) = Inl (KeyError ''odometer'')"
    by code_simp
  then show ?thesis
    by (simp add: dfs_fin_only_def get_df_def fin77_def is_empty_def col_def)
qed

end
